theory Spec2Isabelle
  imports Main "HOL-Library.Sublist"
begin

section \<open>Python values, dictionaries and exceptions\<close>

text \<open>
  The framework of \<^verbatim>\<open>main.py\<close> keeps all of its state in Python dictionaries. A Python
  \<^verbatim>\<open>dict\<close> iterates in insertion order and holds each key once, so a dictionary is an
  association list; \<^verbatim>\<open>d[k] = v\<close> overwrites the value of a key that is present (the key
  keeps its place) and appends a new key at the end.

  A Python \<^verbatim>\<open>str\<close> is a \<open>string\<close>; a \<open>char\<close> stands for the code point of the same
  number, so the model of the files and of the commands covers text whose code points
  are below 256. The search alone is modelled on lists of code points of any size.
\<close>

datatype pyval = PNone | PStr string | PBool bool | PInt int

type_synonym ('k, 'v) dict = "('k \<times> 'v) list"

definition dict_get :: "('k, 'v) dict \<Rightarrow> 'k \<Rightarrow> 'v option" where
  "dict_get d k = map_of d k"

definition dict_contains :: "'k \<Rightarrow> ('k, 'v) dict \<Rightarrow> bool" where
  \<comment> \<open>\<^verbatim>\<open>k in d\<close>\<close>
  "dict_contains k d = (k \<in> set (map fst d))"

fun dict_set :: "('k, 'v) dict \<Rightarrow> 'k \<Rightarrow> 'v \<Rightarrow> ('k, 'v) dict" where
  \<comment> \<open>\<^verbatim>\<open>d[k] = v\<close>\<close>
  "dict_set [] k v = [(k, v)]"
| "dict_set ((a, b) # d) k v = (if a = k then (a, v) # d else (a, b) # dict_set d k v)"

definition dict_update :: "('k, 'v) dict \<Rightarrow> ('k \<times> 'v) list \<Rightarrow> ('k, 'v) dict" where
  \<comment> \<open>the items are stored one after the other: a dict display \<^verbatim>\<open>{..., **v}\<close> and a
      dict comprehension both do this\<close>
  "dict_update d items = foldl (\<lambda>acc (k, v). dict_set acc k v) d items"

definition is_dict :: "('k, 'v) dict \<Rightarrow> bool" where
  \<comment> \<open>a value of Python's \<^verbatim>\<open>dict\<close> has no key twice\<close>
  "is_dict d = distinct (map fst d)"

text \<open>
  The exceptions the framework meets. All of them are subclasses of \<^verbatim>\<open>Exception\<close>, which
  is what the command handlers catch; \<open>Raised\<close> is any such exception raised by the
  operating system or by the code of a module. An exit of the interpreter from inside
  the code of a module (\<^verbatim>\<open>SystemExit\<close>, \<^verbatim>\<open>KeyboardInterrupt\<close>) ends the program and is
  not part of the model. What a command prints is a list of \<open>printed\<close> lines; an
  exception is printed as it is, after the words the command puts before it.
\<close>

datatype exn = KeyError string | AttributeError string | Raised string

datatype printed = Print string | PrintError string exn | PrintScanned nat

section \<open>Modules and the loaded module\<close>

text \<open>
  A module is what executing a module file leaves behind: possibly an attribute
  \<^verbatim>\<open>OPTIONS\<close>, a dictionary from option names to dictionaries of fields, and possibly a
  function \<^verbatim>\<open>run(session, options)\<close>, which prints lines or raises; its return value is
  ignored. The function is given the two dictionaries and the model takes it to read
  them only.
\<close>

type_synonym option_meta = "(string, pyval) dict"

record py_module =
  OPTIONS :: "(string, option_meta) dict option"
  run :: "((string, pyval) dict \<Rightarrow> (string, pyval) dict \<Rightarrow> exn + string list) option"

record module_instance =
  name :: string
  module :: py_module
  options :: "(string, pyval) dict"

definition unknown_option :: "string \<Rightarrow> exn" where
  "unknown_option key = KeyError (''Unknown option '' @ [CHR 0x27] @ key @ [CHR 0x27])"

definition set_option :: "module_instance \<Rightarrow> string \<Rightarrow> pyval \<Rightarrow> exn + module_instance" where
  "set_option self key v =
     (case OPTIONS (module self) of
        None \<Rightarrow> Inl (AttributeError ''OPTIONS'')
      | Some opts \<Rightarrow>
          if \<not> dict_contains key opts then Inl (unknown_option key)
          else Inr (self\<lparr>options := dict_set (options self) key v\<rparr>))"

definition option_value :: "(string, pyval) dict \<Rightarrow> string \<Rightarrow> option_meta \<Rightarrow> pyval" where
  \<comment> \<open>\<^verbatim>\<open>self.options.get(k, v.get("default"))\<close>\<close>
  "option_value store k v =
     (case dict_get store k of
        Some x \<Rightarrow> x
      | None \<Rightarrow> (case dict_get v ''default'' of Some d \<Rightarrow> d | None \<Rightarrow> PNone))"

definition get_options :: "module_instance \<Rightarrow> exn + (string, option_meta) dict" where
  "get_options self =
     (case OPTIONS (module self) of
        None \<Rightarrow> Inl (AttributeError ''OPTIONS'')
      | Some opts \<Rightarrow>
          Inr (dict_update []
            (map (\<lambda>(k, v). (k, dict_update [(''value'', option_value (options self) k v)] v)) opts)))"

definition ModuleInstance_run ::
  "module_instance \<Rightarrow> (string, pyval) dict \<Rightarrow> exn + string list" where
  "ModuleInstance_run self session =
     (case run (module self) of
        None \<Rightarrow> Inl (AttributeError ''run'')
      | Some f \<Rightarrow> f session (options self))"

section \<open>Files and the framework\<close>

text \<open>
  The two roots the framework scans, and the file system it reads. A path is a root and
  the parts of the path relative to it. \<open>rglob_py\<close> is the listing
  \<^verbatim>\<open>folder.rglob("*.py")\<close>, \<open>readlines\<close> the result of opening a file and reading its
  lines (the line ends kept, as Python does), \<open>exec_module\<close> the result of executing the
  file as a module. The metadata of a file is the dictionary of \<^verbatim>\<open>_read_meta\<close>, which
  always has its two keys: \<open>description\<close>, and \<open>declared_options\<close> for the key
  \<^verbatim>\<open>options\<close>.
\<close>

datatype root = MODULE_DIR | EXAMPLES_DIR

type_synonym path = "root \<times> string list"

record filesystem =
  rglob_py :: "root \<Rightarrow> string list list"
  readlines :: "path \<Rightarrow> exn + string list"
  exec_module :: "path \<Rightarrow> exn + py_module"
  os_sep :: char

record 's module_meta =
  description :: 's
  declared_options :: "'s list"

record framework =
  modules :: "(string, path) dict"
  metadata :: "(string, string module_meta) dict"
  loaded_module :: "module_instance option"
  session :: "(string, pyval) dict"

definition import_module :: "filesystem \<Rightarrow> framework \<Rightarrow> string \<Rightarrow> exn + py_module" where
  "import_module fs self key =
     (case dict_get (modules self) key of
        None \<Rightarrow> Inl (KeyError key)
      | Some p \<Rightarrow> exec_module fs p)"

definition resolve_key :: "(string, path) dict \<Rightarrow> string \<Rightarrow> string" where
  "resolve_key mods key =
     (if prefix ''modules/'' key \<or> prefix ''examples/'' key then key
      else if dict_contains (''modules/'' @ key) mods then ''modules/'' @ key
      else if dict_contains (''examples/'' @ key) mods then ''examples/'' @ key
      else key)"

fun load_defaults ::
  "(string, option_meta) dict \<Rightarrow> (string, pyval) dict \<Rightarrow> (string, pyval) dict" where
  "load_defaults [] store = store"
| "load_defaults ((k, meta) # rest) store =
     load_defaults rest
       (case dict_get meta ''default'' of Some d \<Rightarrow> dict_set store k d | None \<Rightarrow> store)"

definition cmd_use :: "filesystem \<Rightarrow> framework \<Rightarrow> string list \<Rightarrow> framework \<times> printed list" where
  "cmd_use fs self args =
     (case args of
        [] \<Rightarrow> (self, [Print ''Usage: use <module>''])
      | a # _ \<Rightarrow>
          let key = resolve_key (modules self) a in
          (case import_module fs self key of
             Inl e \<Rightarrow> (self, [PrintError ''Load error:'' e])
           | Inr m \<Rightarrow>
               (case OPTIONS m of
                  None \<Rightarrow> (self, [PrintError ''Load error:'' (AttributeError ''OPTIONS'')])
                | Some opts \<Rightarrow>
                    (self\<lparr>loaded_module :=
                        Some \<lparr>name = key, module = m, options = load_defaults opts []\<rparr>\<rparr>,
                     [Print (''Loaded module '' @ key)]))))"

fun join :: "string \<Rightarrow> string list \<Rightarrow> string" where
  "join sep [] = []"
| "join sep [x] = x"
| "join sep (x # y # ys) = x @ sep @ join sep (y # ys)"

definition cmd_set :: "framework \<Rightarrow> string list \<Rightarrow> framework \<times> printed list" where
  "cmd_set self args =
     (case loaded_module self of
        None \<Rightarrow> (self, [Print ''No module loaded.''])
      | Some inst \<Rightarrow>
          if length args < 2 then (self, [Print ''Usage: set <option> <value>''])
          else
            let opt = hd args; val = join '' '' (tl args) in
            (case set_option inst opt (PStr val) of
               Inr inst' \<Rightarrow> (self\<lparr>loaded_module := Some inst'\<rparr>, [Print (opt @ '' => '' @ val)])
             | Inl e \<Rightarrow> (self, [PrintError [] e])))"

definition cmd_run :: "framework \<Rightarrow> string list \<Rightarrow> framework \<times> printed list" where
  "cmd_run self args =
     (case loaded_module self of
        None \<Rightarrow> (self, [Print ''No module loaded.''])
      | Some inst \<Rightarrow>
          (case ModuleInstance_run inst (session self) of
             Inl e \<Rightarrow> (self, [PrintError ''Run error:'' e])
           | Inr out \<Rightarrow> (self, map Print out)))"

definition cmd_back :: "framework \<Rightarrow> string list \<Rightarrow> framework \<times> printed list" where
  "cmd_back self args =
     (case loaded_module self of
        Some inst \<Rightarrow> (self\<lparr>loaded_module := None\<rparr>, [Print (''Unloaded '' @ name inst)])
      | None \<Rightarrow> (self, [Print ''No module loaded.'']))"

section \<open>Searching the metadata\<close>

text \<open>
  The search lowers its strings with \<^verbatim>\<open>str.lower\<close>, which is defined on every code point
  and may lengthen a string, so here a Python \<^verbatim>\<open>str\<close> is the list of its code points.
  A code point below 256 lowers to one code point: the letters A to Z and the Latin-1
  capitals 192 to 222, the multiplication sign 215 apart, to the code point 32 above,
  every other to itself. For the code points from 256 on Python follows the Unicode
  character database, which the repository does not contain: it is the parameter \<open>ucd\<close>,
  which gives the code points that the code point at place \<open>i\<close> of the string \<open>s\<close>
  lowers to. It is given the whole string because the lowering may depend on the place
  (the capital sigma), and it gives a list because the lowering may be longer than one
  code point (the capital I with a dot above, U+0130).
\<close>

type_synonym ustr = "nat list"

definition lower_latin1 :: "nat \<Rightarrow> nat" where
  "lower_latin1 c =
     (if (65 \<le> c \<and> c \<le> 90) \<or> (192 \<le> c \<and> c \<le> 214) \<or> (216 \<le> c \<and> c \<le> 222)
      then c + 32 else c)"

definition str_lower :: "(ustr \<Rightarrow> nat \<Rightarrow> ustr) \<Rightarrow> ustr \<Rightarrow> ustr" where
  "str_lower ucd s =
     concat (map (\<lambda>i. if s ! i < 256 then [lower_latin1 (s ! i)] else ucd s i) [0..<length s])"

fun search_loop ::
  "(ustr \<Rightarrow> nat \<Rightarrow> ustr) \<Rightarrow> ustr \<Rightarrow> (ustr, ustr module_meta) dict \<Rightarrow> (ustr \<times> ustr) list
     \<Rightarrow> (ustr \<times> ustr) list" where
  "search_loop ucd keyword [] results = results"
| "search_loop ucd keyword ((key, meta) # rest) results =
     search_loop ucd keyword rest
       (if sublist keyword (str_lower ucd key)
           \<or> sublist keyword (str_lower ucd (description meta))
        then results @ [(key, description meta)] else results)"

definition search_modules ::
  "(ustr \<Rightarrow> nat \<Rightarrow> ustr) \<Rightarrow> (ustr, ustr module_meta) dict \<Rightarrow> ustr \<Rightarrow> (ustr \<times> ustr) list" where
  "search_modules ucd md keyword = search_loop ucd (str_lower ucd keyword) md []"

text \<open>
  What it means for a keyword to occur in a string as a substring when the case of
  letters is ignored, said without \<^verbatim>\<open>str.lower\<close>: some contiguous part of the string has
  the length of the keyword and, place by place, the same code point as the keyword or
  the same letter in the other case. Below 256 a capital letter and its small letter
  are 32 apart; from 256 on only equal code points count as the same.
\<close>

definition is_capital :: "nat \<Rightarrow> bool" where
  "is_capital c = ((65 \<le> c \<and> c \<le> 90) \<or> (192 \<le> c \<and> c \<le> 214) \<or> (216 \<le> c \<and> c \<le> 222))"

definition same_up_to_case :: "nat \<Rightarrow> nat \<Rightarrow> bool" where
  "same_up_to_case a b = (a = b \<or> (is_capital a \<and> b = a + 32) \<or> (is_capital b \<and> a = b + 32))"

definition contains_ignoring_case :: "ustr \<Rightarrow> ustr \<Rightarrow> bool" where
  "contains_ignoring_case keyword s =
     (\<exists>before part after. s = before @ part @ after \<and> list_all2 same_up_to_case part keyword)"

definition latin1 :: "ustr \<Rightarrow> bool" where
  "latin1 s = list_all (\<lambda>c. c < 256) s"

section \<open>Reading the metadata of a file\<close>

text \<open>
  The three regular expressions of \<^verbatim>\<open>_read_meta\<close>. In each of them every repeated
  character class is followed by a literal character outside the class (\<^verbatim>\<open>\s*\<close> by
  \<^verbatim>\<open>=\<close>, \<^verbatim>\<open>{\<close>, \<^verbatim>\<open>:\<close> or a quote, \<^verbatim>\<open>[^}]*\<close> by \<^verbatim>\<open>}\<close>, \<^verbatim>\<open>[^'"]+\<close> and
  \<^verbatim>\<open>[A-Za-z0-9_]+\<close> by a quote), so giving characters back never helps and the greedy
  match from a position is the only one there: the matcher takes the longest run and
  then demands the literal.
\<close>

definition is_space :: "char \<Rightarrow> bool" where
  \<comment> \<open>\<^verbatim>\<open>\s\<close> of a \<^verbatim>\<open>str\<close> pattern, on the code points below 256\<close>
  "is_space c =
     (let n = (of_char c :: nat) in (9 \<le> n \<and> n \<le> 13) \<or> (28 \<le> n \<and> n \<le> 32) \<or> n = 133 \<or> n = 160)"

definition is_ident :: "char \<Rightarrow> bool" where
  \<comment> \<open>\<^verbatim>\<open>[A-Za-z0-9_]\<close>\<close>
  "is_ident c =
     (let n = (of_char c :: nat) in
      (65 \<le> n \<and> n \<le> 90) \<or> (97 \<le> n \<and> n \<le> 122) \<or> (48 \<le> n \<and> n \<le> 57) \<or> n = 95)"

definition is_quote :: "char \<Rightarrow> bool" where
  \<comment> \<open>\<^verbatim>\<open>['"]\<close>\<close>
  "is_quote c = (c = CHR 0x27 \<or> c = CHR 0x22)"

definition METADATA_READ_LINES :: nat where
  "METADATA_READ_LINES = 120"

definition match_description_at :: "string \<Rightarrow> string option" where
  \<comment> \<open>\<^verbatim>\<open>['"]description['"]\s*:\s*['"]([^'"]+)['"]\<close> matched at the start of \<open>s\<close>:
      the group\<close>
  "match_description_at s =
     (case s of
        [] \<Rightarrow> None
      | q1 # s1 \<Rightarrow>
          if \<not> (is_quote q1 \<and> prefix ''description'' s1) then None
          else (case drop 11 s1 of
            [] \<Rightarrow> None
          | q2 # s2 \<Rightarrow>
              if \<not> is_quote q2 then None
              else (case dropWhile is_space s2 of
                [] \<Rightarrow> None
              | c # s3 \<Rightarrow>
                  if c \<noteq> CHR '':'' then None
                  else (case dropWhile is_space s3 of
                    [] \<Rightarrow> None
                  | q3 # s4 \<Rightarrow>
                      if \<not> is_quote q3 then None
                      else
                        let g = takeWhile (\<lambda>x. \<not> is_quote x) s4 in
                        if g \<noteq> [] \<and> dropWhile (\<lambda>x. \<not> is_quote x) s4 \<noteq> [] then Some g
                        else None))))"

fun search_description :: "string \<Rightarrow> string option" where
  \<comment> \<open>\<^verbatim>\<open>re.search\<close>: the match at the leftmost position that has one\<close>
  "search_description [] = match_description_at []"
| "search_description (c # cs) =
     (case match_description_at (c # cs) of
        Some g \<Rightarrow> Some g
      | None \<Rightarrow> search_description cs)"

definition match_options_at :: "string \<Rightarrow> string option" where
  \<comment> \<open>\<^verbatim>\<open>OPTIONS\s*=\s*{([^}]*)}\<close> matched at the start of \<open>s\<close>: the group\<close>
  "match_options_at s =
     (if \<not> prefix ''OPTIONS'' s then None
      else (case dropWhile is_space (drop 7 s) of
        [] \<Rightarrow> None
      | c1 # s1 \<Rightarrow>
          if c1 \<noteq> CHR ''='' then None
          else (case dropWhile is_space s1 of
            [] \<Rightarrow> None
          | c2 # s2 \<Rightarrow>
              if c2 \<noteq> CHR ''{'' then None
              else if dropWhile (\<lambda>x. x \<noteq> CHR ''}'') s2 = [] then None
              else Some (takeWhile (\<lambda>x. x \<noteq> CHR ''}'') s2))))"

fun search_options :: "string \<Rightarrow> string option" where
  "search_options [] = match_options_at []"
| "search_options (c # cs) =
     (case match_options_at (c # cs) of
        Some g \<Rightarrow> Some g
      | None \<Rightarrow> search_options cs)"

definition match_name_at :: "string \<Rightarrow> (string \<times> nat) option" where
  \<comment> \<open>\<^verbatim>\<open>['"]([A-Za-z0-9_]+)['"]\s*:\<close> matched at the start of \<open>s\<close>: the group and the
      length of the match\<close>
  "match_name_at s =
     (case s of
        [] \<Rightarrow> None
      | q1 # s1 \<Rightarrow>
          if \<not> is_quote q1 then None
          else
            let n = takeWhile is_ident s1 in
            if n = [] then None
            else (case dropWhile is_ident s1 of
              [] \<Rightarrow> None
            | q2 # s2 \<Rightarrow>
                if \<not> is_quote q2 then None
                else (case dropWhile is_space s2 of
                  [] \<Rightarrow> None
                | c # _ \<Rightarrow>
                    if c \<noteq> CHR '':'' then None
                    else Some (n, length n + length (takeWhile is_space s2) + 3))))"

fun findall_names :: "string \<Rightarrow> string list" where
  \<comment> \<open>\<^verbatim>\<open>re.findall\<close>: the matches from left to right, the scan going on where a match
      ends and one character further where there is none\<close>
  "findall_names [] = []"
| "findall_names (c # cs) =
     (case match_name_at (c # cs) of
        Some (n, len) \<Rightarrow> n # findall_names (drop (len - 1) cs)
      | None \<Rightarrow> findall_names cs)"

definition read_meta :: "filesystem \<Rightarrow> path \<Rightarrow> string module_meta" where
  \<comment> \<open>\<^verbatim>\<open>_read_meta\<close>: whatever is raised while the file is read is swallowed, and
      \<^verbatim>\<open>data\<close> is returned as it is then, still empty\<close>
  "read_meta fs p =
     (case readlines fs p of
        Inl e \<Rightarrow> \<lparr>description = [], declared_options = []\<rparr>
      | Inr ls \<Rightarrow>
          let text = concat (take METADATA_READ_LINES ls) in
          \<lparr>description = (case search_description text of Some g \<Rightarrow> g | None \<Rightarrow> []),
           declared_options =
             (case search_options text of Some body \<Rightarrow> findall_names body | None \<Rightarrow> [])\<rparr>)"

text \<open>
  The words in which the result of the option scan is stated. \<open>tails\<close> lists the
  places of a text from left to right, each as the text from that place on.
  \<open>options_block\<close> says that a text begins with an \<^verbatim>\<open>OPTIONS\<close> block whose braces, the
  opening one and the first closing one after it, enclose \<open>body\<close>; \<open>quoted_name\<close>
  that a text begins with an identifier between two quote characters that is followed,
  after optional white space, by a colon; \<open>name_at\<close> is the name the matcher finds at
  the start of a text.
\<close>

fun tails :: "'a list \<Rightarrow> 'a list list" where
  "tails [] = []"
| "tails (c # cs) = (c # cs) # tails cs"

definition name_at :: "string \<Rightarrow> string option" where
  "name_at t = map_option fst (match_name_at t)"

definition options_block :: "string \<Rightarrow> string \<Rightarrow> bool" where
  "options_block t body =
     (\<exists>ws1 ws2 after.
        t = ''OPTIONS'' @ ws1 @ ''='' @ ws2 @ ''{'' @ body @ ''}'' @ after
        \<and> list_all is_space ws1 \<and> list_all is_space ws2 \<and> CHR ''}'' \<notin> set body)"

definition quoted_name :: "string \<Rightarrow> string \<Rightarrow> bool" where
  "quoted_name t n =
     (\<exists>q1 q2 ws rest.
        t = [q1] @ n @ [q2] @ ws @ '':'' @ rest
        \<and> is_quote q1 \<and> is_quote q2 \<and> n \<noteq> [] \<and> list_all is_ident n \<and> list_all is_space ws)"

text \<open>
  The option names as the specification words them: the quoted identifiers that a colon
  follows immediately, each once, in the order of their first appearance.
\<close>

definition spec_name_at :: "string \<Rightarrow> string option" where
  "spec_name_at t =
     (case t of
        [] \<Rightarrow> None
      | q1 # s1 \<Rightarrow>
          if \<not> is_quote q1 \<or> takeWhile is_ident s1 = [] then None
          else (case dropWhile is_ident s1 of
            q2 # c # _ \<Rightarrow>
              if is_quote q2 \<and> c = CHR '':'' then Some (takeWhile is_ident s1) else None
          | _ \<Rightarrow> None))"

definition first_appearances :: "'a list \<Rightarrow> 'a list" where
  "first_appearances xs = rev (remdups (rev xs))"

definition spec_declared_names :: "string \<Rightarrow> string list" where
  "spec_declared_names text =
     (case search_options text of
        None \<Rightarrow> []
      | Some body \<Rightarrow> first_appearances (List.map_filter spec_name_at (tails body)))"

section \<open>Scanning the roots\<close>

text \<open>
  \<^verbatim>\<open>scan_modules\<close> empties both maps and walks the two roots in turn; creating the
  directories first (\<^verbatim>\<open>_ensure_dirs\<close>) changes nothing that the scan reads of a file
  system that has them.
\<close>

definition module_key :: "filesystem \<Rightarrow> string \<Rightarrow> string list \<Rightarrow> string" where
  \<comment> \<open>\<^verbatim>\<open>rel = str(p.relative_to(folder)).replace(os.sep, "/")\<close>, then
      \<^verbatim>\<open>key = f"{prefix}/{rel}"\<close>\<close>
  "module_key fs pre parts =
     pre @ ''/'' @ map (\<lambda>c. if c = os_sep fs then CHR ''/'' else c) (join [os_sep fs] parts)"

definition scan_folder :: "filesystem \<Rightarrow> root \<times> string \<Rightarrow> framework \<Rightarrow> framework" where
  "scan_folder fs fp self =
     foldl (\<lambda>s parts.
         let key = module_key fs (snd fp) parts; p = (fst fp, parts) in
         s\<lparr>modules := dict_set (modules s) key p,
           metadata := dict_set (metadata s) key (read_meta fs p)\<rparr>)
       self (rglob_py fs (fst fp))"

definition scan_modules :: "filesystem \<Rightarrow> framework \<Rightarrow> framework" where
  "scan_modules fs self =
     foldl (\<lambda>s fp. scan_folder fs fp s) (self\<lparr>modules := [], metadata := []\<rparr>)
       [(MODULE_DIR, ''modules''), (EXAMPLES_DIR, ''examples'')]"

definition cmd_scan :: "filesystem \<Rightarrow> framework \<Rightarrow> string list \<Rightarrow> framework \<times> printed list" where
  "cmd_scan fs self args =
     (let self' = scan_modules fs self in (self', [PrintScanned (length (modules self'))]))"

text \<open>
  The files a scan discovers, in the order of the scan, and the key of each. What the
  operating system guarantees of a listing: a root lists no path twice, every path has
  at least one part, and no part contains a path separator.
\<close>

definition root_prefix :: "root \<Rightarrow> string" where
  "root_prefix r = (case r of MODULE_DIR \<Rightarrow> ''modules'' | EXAMPLES_DIR \<Rightarrow> ''examples'')"

definition key_of :: "filesystem \<Rightarrow> path \<Rightarrow> string" where
  "key_of fs p = module_key fs (root_prefix (fst p)) (snd p)"

definition discovered :: "filesystem \<Rightarrow> path list" where
  "discovered fs =
     map (Pair MODULE_DIR) (rglob_py fs MODULE_DIR) @ map (Pair EXAMPLES_DIR) (rglob_py fs EXAMPLES_DIR)"

definition is_listing :: "filesystem \<Rightarrow> bool" where
  "is_listing fs =
     (distinct (rglob_py fs MODULE_DIR) \<and> distinct (rglob_py fs EXAMPLES_DIR) \<and>
      (\<forall>p \<in> set (discovered fs).
         snd p \<noteq> [] \<and> (\<forall>c \<in> set (snd p). os_sep fs \<notin> set c \<and> CHR ''/'' \<notin> set c)))"

section \<open>Well-formed schemas\<close>

text \<open>
  The module contract: \<^verbatim>\<open>OPTIONS\<close> is a dictionary whose values are dictionaries with
  the fields \<^verbatim>\<open>required\<close>, \<^verbatim>\<open>default\<close> and \<^verbatim>\<open>description\<close>, so none of them has a field
  called \<^verbatim>\<open>value\<close>.
\<close>

definition is_schema :: "(string, option_meta) dict \<Rightarrow> bool" where
  "is_schema opts =
     (is_dict opts \<and> (\<forall>m \<in> set (map snd opts). is_dict m \<and> \<not> dict_contains ''value'' m))"

definition shown_value :: "(string, option_meta) dict \<Rightarrow> string \<Rightarrow> pyval option" where
  \<comment> \<open>the \<^verbatim>\<open>value\<close> that the result of \<^verbatim>\<open>get_options\<close> shows for an option\<close>
  "shown_value res k = (case dict_get res k of None \<Rightarrow> None | Some e \<Rightarrow> dict_get e ''value'')"

definition default_of :: "(string, option_meta) dict \<Rightarrow> string \<Rightarrow> pyval option" where
  \<comment> \<open>the default a schema declares for an option, if the option is there and has one\<close>
  "default_of opts k =
     (case dict_get opts k of None \<Rightarrow> None | Some meta \<Rightarrow> dict_get meta ''default'')"

text \<open>
  A run of \<^verbatim>\<open>set\<close> commands at the prompt, each given by its arguments, and the value
  that such a run leaves for an option: the words of the last command that names the
  option, if the schema declares it and the command has a value.
\<close>

definition run_sets :: "framework \<Rightarrow> string list list \<Rightarrow> framework" where
  "run_sets self cmds = foldl (\<lambda>s args. fst (cmd_set s args)) self cmds"

definition override_of :: "(string, option_meta) dict \<Rightarrow> string list list \<Rightarrow> string \<Rightarrow> string option" where
  "override_of opts cmds k =
     (let sets = filter (\<lambda>args. 2 \<le> length args \<and> hd args = k \<and> dict_contains k opts) cmds in
      if sets = [] then None else Some (join '' '' (tl (last sets))))"

section \<open>Example modules\<close>

text \<open>
  The module \<^verbatim>\<open>aux/echo.py\<close> that \<^verbatim>\<open>main.py\<close> installs, and three more files: a module
  with an option that declares no default, a file that defines \<^verbatim>\<open>run\<close> only, and a
  file that cannot be opened.
\<close>

definition echo_lines :: "string list" where
  "echo_lines =
    [''MODULE_INFO={\"name\":\"aux/echo\",\"description\":\"Echo string back (safe)\"}'' @ [CHR 0x0A],
     ''OPTIONS={\"MSG\":{\"required\":True,\"default\":\"\",\"description\":\"Message to echo\"}}'' @ [CHR 0x0A],
     ''def run(session,options):print(\"ECHO:\",options.get(\"MSG\",\"\"))'']"

definition echo_options :: "(string, option_meta) dict" where
  "echo_options =
    [(''MSG'', [(''required'', PBool True), (''default'', PStr []),
                (''description'', PStr ''Message to echo'')])]"

definition echo_run :: "(string, pyval) dict \<Rightarrow> (string, pyval) dict \<Rightarrow> exn + string list" where
  "echo_run sess opts =
     Inr [''ECHO: '' @ (case dict_get opts ''MSG'' of Some (PStr x) \<Rightarrow> x | _ \<Rightarrow> [])]"

definition echo_module :: py_module where
  "echo_module = \<lparr>OPTIONS = Some echo_options, run = Some echo_run\<rparr>"

definition probe_lines :: "string list" where
  "probe_lines =
    [''#O'' @ [CHR 0x0A],
     ''OPTIONS = {\"TARGET\" : {\"required\": True}, \"PORT\": {\"default\": \"80\"}}'' @ [CHR 0x0A],
     ''def run(session, options): print(*options)'']"

definition probe_options :: "(string, option_meta) dict" where
  "probe_options =
    [(''TARGET'', [(''required'', PBool True)]), (''PORT'', [(''default'', PStr ''80'')])]"

definition print_names :: "(string, pyval) dict \<Rightarrow> (string, pyval) dict \<Rightarrow> exn + string list" where
  \<comment> \<open>\<^verbatim>\<open>def run(session, options): print(*options)\<close>\<close>
  "print_names sess opts = Inr [join '' '' (map fst opts)]"

definition probe_module :: py_module where
  "probe_module = \<lparr>OPTIONS = Some probe_options, run = Some print_names\<rparr>"

definition bare_lines :: "string list" where
  "bare_lines = [''def run(session, options): print(*options)'']"

definition bare_module :: py_module where
  "bare_module = \<lparr>OPTIONS = None, run = Some print_names\<rparr>"

definition plain_lines :: "string list" where
  "plain_lines =
    [''OPTIONS = dict()'' @ [CHR 0x0A], ''def run(session, options): print(*options)'']"

definition plain_module :: py_module where
  "plain_module = \<lparr>OPTIONS = Some [], run = Some print_names\<rparr>"

definition example_fs :: filesystem where
  "example_fs =
    \<lparr>rglob_py = (\<lambda>r. case r of
        MODULE_DIR \<Rightarrow> [[''probe.py''], [''bare.py''], [''locked.py'']]
      | EXAMPLES_DIR \<Rightarrow> [[''aux'', ''echo.py'']]),
     readlines = (\<lambda>p.
        if p = (MODULE_DIR, [''probe.py'']) then Inr probe_lines
        else if p = (MODULE_DIR, [''bare.py'']) then Inr bare_lines
        else if p = (EXAMPLES_DIR, [''aux'', ''echo.py'']) then Inr echo_lines
        else Inl (Raised ''PermissionError'')),
     exec_module = (\<lambda>p.
        if p = (MODULE_DIR, [''probe.py'']) then Inr probe_module
        else if p = (MODULE_DIR, [''bare.py'']) then Inr bare_module
        else if p = (EXAMPLES_DIR, [''aux'', ''echo.py'']) then Inr echo_module
        else Inl (Raised ''PermissionError'')),
     os_sep = CHR ''/''\<rparr>"

definition example_registry :: framework where
  "example_registry =
    \<lparr>modules =
       [(''modules/probe.py'', (MODULE_DIR, [''probe.py''])),
        (''modules/bare.py'', (MODULE_DIR, [''bare.py''])),
        (''modules/locked.py'', (MODULE_DIR, [''locked.py''])),
        (''examples/aux/echo.py'', (EXAMPLES_DIR, [''aux'', ''echo.py'']))],
     metadata =
       [(''modules/probe.py'', \<lparr>description = [], declared_options = [''TARGET'', ''required'']\<rparr>),
        (''modules/bare.py'', \<lparr>description = [], declared_options = []\<rparr>),
        (''modules/locked.py'', \<lparr>description = [], declared_options = []\<rparr>),
        (''examples/aux/echo.py'',
           \<lparr>description = ''Echo string back (safe)'',
            declared_options = [''MSG'', ''required'', ''default'', ''description'']\<rparr>)],
     loaded_module = None,
     session = [(''user'', PStr ''unknown'')]\<rparr>"

definition twice_lines :: "string list" where
  "twice_lines = [''OPTIONS={\"default\":{\"default\":\"x\"}}'']"

definition plain_fs :: filesystem where
  "plain_fs = example_fs\<lparr>readlines := (\<lambda>p. Inr plain_lines), exec_module := (\<lambda>p. Inr plain_module)\<rparr>"

definition twice_fs :: filesystem where
  "twice_fs = example_fs\<lparr>readlines := (\<lambda>p. Inr twice_lines)\<rparr>"

definition codes :: "string \<Rightarrow> ustr" where
  \<comment> \<open>the code points of a string of the examples\<close>
  "codes s = map of_char s"

definition example_index :: "(ustr, ustr module_meta) dict" where
  "example_index =
    [(codes ''modules/probe.py'', \<lparr>description = [], declared_options = []\<rparr>),
     (codes ''examples/aux/echo.py'',
        \<lparr>description = codes ''Echo string back (safe)'', declared_options = [codes ''MSG'']\<rparr>)]"

definition dotted_key :: ustr where
  \<comment> \<open>the file name made of K, U+0130 and \<^verbatim>\<open>.py\<close>\<close>
  "dotted_key = [0x4B, 0x130, 0x2E, 0x70, 0x79]"

definition dotted_table :: "ustr \<Rightarrow> nat \<Rightarrow> ustr" where
  \<comment> \<open>the rows of the Unicode table for the code points from 256 on of \<open>dotted_key\<close> and
      of the combining dot above, U+0307: U+0130 lowers to i and U+0307, and U+0307 has
      no case\<close>
  "dotted_table s i = (if s ! i = 0x130 then [0x69, 0x307] else [s ! i])"

definition unscanned :: framework where
  "unscanned =
    \<lparr>modules = [], metadata = [], loaded_module = None, session = [(''user'', PStr ''unknown'')]\<rparr>"

definition echo_instance :: module_instance where
  "echo_instance =
    \<lparr>name = ''examples/aux/echo.py'', module = echo_module, options = [(''MSG'', PStr [])]\<rparr>"

definition probe_instance :: module_instance where
  "probe_instance =
    \<lparr>name = ''modules/probe.py'', module = probe_module, options = [(''PORT'', PStr ''80'')]\<rparr>"

definition echo_loaded :: framework where
  "echo_loaded = example_registry\<lparr>loaded_module := Some echo_instance\<rparr>"

section \<open>Dictionary facts\<close>

lemma dict_get_set: "dict_get (dict_set d k v) k' = (if k' = k then Some v else dict_get d k')"
  by (induction d k v rule: dict_set.induct) (auto simp: dict_get_def)

lemma keys_dict_set:
  "map fst (dict_set d k v) = (if k \<in> set (map fst d) then map fst d else map fst d @ [k])"
  by (induction d k v rule: dict_set.induct) auto

lemma is_dict_set: "is_dict d \<Longrightarrow> is_dict (dict_set d k v)"
  by (simp add: is_dict_def keys_dict_set)

lemma dict_contains_get: "dict_contains k d \<longleftrightarrow> dict_get d k \<noteq> None"
  by (simp add: dict_contains_def dict_get_def map_of_eq_None_iff)

lemma dict_get_update:
  "dict_get (dict_update d items) k =
     (case map_of (rev items) k of Some v \<Rightarrow> Some v | None \<Rightarrow> dict_get d k)"
  unfolding dict_update_def
proof (induction items arbitrary: d)
  case Nil
  then show ?case by simp
next
  case (Cons x xs)
  obtain a b where x: "x = (a, b)" by (cases x)
  show ?case
    by (auto simp: Cons x dict_get_set map_of_append map_add_def split: option.splits)
qed

lemma keys_dict_update_fresh:
  "distinct (map fst items) \<Longrightarrow> set (map fst items) \<inter> set (map fst d) = {} \<Longrightarrow>
   map fst (dict_update d items) = map fst d @ map fst items"
  unfolding dict_update_def
proof (induction items arbitrary: d)
  case Nil
  then show ?case by simp
next
  case (Cons x xs)
  obtain a b where x: "x = (a, b)" by (cases x)
  have "map fst (foldl (\<lambda>acc (k, v). dict_set acc k v) (dict_set d a b) xs)
        = map fst (dict_set d a b) @ map fst xs"
    using Cons.prems by (intro Cons.IH) (auto simp: x keys_dict_set)
  then show ?case using Cons.prems by (simp add: x keys_dict_set)
qed

lemma map_of_rev_distinct: "distinct (map fst xs) \<Longrightarrow> map_of (rev xs) = map_of xs"
  by (rule map_of_inject_set[THEN iffD2]) (auto simp: rev_map[symmetric])

lemma dict_get_update_distinct:
  "distinct (map fst items) \<Longrightarrow>
   dict_get (dict_update d items) k =
     (case map_of items k of Some v \<Rightarrow> Some v | None \<Rightarrow> dict_get d k)"
  by (simp add: dict_get_update map_of_rev_distinct)

section \<open>Setting an option\<close>

lemma set_option_unknown:
  "OPTIONS (module inst) = Some opts \<Longrightarrow> \<not> dict_contains k opts \<Longrightarrow>
   set_option inst k v = Inl (unknown_option k)"
  by (simp add: set_option_def)

lemma set_option_known:
  "OPTIONS (module inst) = Some opts \<Longrightarrow> dict_contains k opts \<Longrightarrow>
   set_option inst k v = Inr (inst\<lparr>options := dict_set (options inst) k v\<rparr>)"
  by (simp add: set_option_def)

text \<open>
  Claim C5. In a loaded module, \<^verbatim>\<open>set_option\<close> with a name that the module's \<^verbatim>\<open>OPTIONS\<close>
  does not declare raises the unknown-option \<^verbatim>\<open>KeyError\<close>, and the command \<^verbatim>\<open>set\<close>
  prints it and leaves the whole framework, the option store included, as it was. With
  a declared name it stores the value under that name, overwriting what was there, and
  changes the value of no other name; the command \<^verbatim>\<open>set\<close> stores the words after the
  name, joined by blanks, as a string.
\<close>

theorem set_option_spec:
  assumes "loaded_module self = Some inst" and "OPTIONS (module inst) = Some opts"
  shows "(\<not> dict_contains k opts \<longrightarrow>
            set_option inst k v = Inl (unknown_option k) \<and>
            cmd_set self (k # w # ws) = (self, [PrintError [] (unknown_option k)]))
       \<and> (dict_contains k opts \<longrightarrow>
            set_option inst k v = Inr (inst\<lparr>options := dict_set (options inst) k v\<rparr>) \<and>
            dict_get (dict_set (options inst) k v) k = Some v \<and>
            (\<forall>k'. k' \<noteq> k \<longrightarrow> dict_get (dict_set (options inst) k v) k' = dict_get (options inst) k') \<and>
            cmd_set self (k # w # ws) =
              (self\<lparr>loaded_module :=
                  Some (inst\<lparr>options := dict_set (options inst) k (PStr (join '' '' (w # ws)))\<rparr>)\<rparr>,
               [Print (k @ '' => '' @ join '' '' (w # ws))]))"
  using assms
  by (simp add: set_option_unknown set_option_known cmd_set_def dict_get_set Let_def)

theorem set_option_spec_witness:
  "loaded_module echo_loaded = Some echo_instance
   \<and> OPTIONS (module echo_instance) = Some echo_options
   \<and> \<not> dict_contains ''PORT'' echo_options
   \<and> set_option echo_instance ''PORT'' (PStr ''80'') = Inl (unknown_option ''PORT'')
   \<and> cmd_set echo_loaded [''PORT'', ''80''] = (echo_loaded, [PrintError [] (unknown_option ''PORT'')])
   \<and> dict_contains ''MSG'' echo_options
   \<and> set_option echo_instance ''MSG'' (PStr ''hi'')
       = Inr (echo_instance\<lparr>options := [(''MSG'', PStr ''hi'')]\<rparr>)
   \<and> cmd_set echo_loaded [''MSG'', ''hi'', ''there'']
       = (echo_loaded\<lparr>loaded_module := Some (echo_instance\<lparr>options := [(''MSG'', PStr ''hi there'')]\<rparr>)\<rparr>,
          [Print ''MSG => hi there''])"
  using set_option_spec [of echo_loaded echo_instance echo_options "''PORT''" "PStr ''80''" "''80''" "[]"]
    set_option_spec [of echo_loaded echo_instance echo_options "''MSG''" "PStr ''hi''" "''hi''" "[''there'']"]
  by (simp add: echo_loaded_def echo_instance_def echo_module_def echo_options_def
      dict_contains_def)

section \<open>Showing the options\<close>

lemma get_options_keys:
  assumes "OPTIONS (module inst) = Some opts" "is_dict opts"
  shows "\<exists>res. get_options inst = Inr res \<and> map fst res = map fst opts"
  using assms
  by (simp add: get_options_def is_dict_def keys_dict_update_fresh comp_def case_prod_unfold)

lemma get_options_entry:
  assumes "OPTIONS (module inst) = Some opts" "is_dict opts" "(k, v) \<in> set opts"
  shows "\<exists>res. get_options inst = Inr res \<and>
           dict_get res k = Some (dict_update [(''value'', option_value (options inst) k v)] v)"
proof -
  let ?f = "\<lambda>(k, v). (k, dict_update [(''value'', option_value (options inst) k v)] v)"
  have d: "distinct (map fst (map ?f opts))"
    using assms(2) by (simp add: is_dict_def comp_def case_prod_unfold)
  have "(k, dict_update [(''value'', option_value (options inst) k v)] v) \<in> set (map ?f opts)"
    using assms(3) by force
  then have "map_of (map ?f opts) k = Some (dict_update [(''value'', option_value (options inst) k v)] v)"
    using d by (rule map_of_is_SomeI[rotated])
  then have "dict_get (dict_update [] (map ?f opts)) k
             = Some (dict_update [(''value'', option_value (options inst) k v)] v)"
    by (simp only: dict_get_update_distinct[OF d] option.case)
  then show ?thesis
    using assms(1) by (simp add: get_options_def)
qed

lemma entry_fields:
  assumes "is_dict v" "\<not> dict_contains ''value'' v"
  shows "dict_get (dict_update [(''value'', x)] v) f = (if f = ''value'' then Some x else dict_get v f)"
proof -
  have d: "distinct (map fst v)"
    using assms(1) by (simp add: is_dict_def)
  have n: "map_of v ''value'' = None"
    using assms(2) by (simp add: dict_contains_def map_of_eq_None_iff)
  show ?thesis
    unfolding dict_get_update_distinct[OF d]
    using n by (auto simp: dict_get_def split: option.splits)
qed

lemma get_options_shown:
  assumes "OPTIONS (module inst) = Some opts" "is_schema opts" "(k, v) \<in> set opts"
  shows "\<exists>res. get_options inst = Inr res \<and>
           shown_value res k = Some (option_value (options inst) k v) \<and>
           (\<forall>e f. dict_get res k = Some e \<longrightarrow> f \<noteq> ''value'' \<longrightarrow> dict_get e f = dict_get v f)"
proof -
  have v: "is_dict v" "\<not> dict_contains ''value'' v"
    using assms(2,3) by (auto simp: is_schema_def)
  obtain res where res: "get_options inst = Inr res"
    "dict_get res k = Some (dict_update [(''value'', option_value (options inst) k v)] v)"
    using get_options_entry[OF assms(1) _ assms(3)] assms(2) by (auto simp: is_schema_def)
  show ?thesis
    using res by (simp add: shown_value_def entry_fields[OF v])
qed

lemma dict_get_Nil: "dict_get [] k = None"
  by (simp add: dict_get_def)

lemma default_of_Cons:
  "default_of ((k0, meta) # rest) k = (if k = k0 then dict_get meta ''default'' else default_of rest k)"
  by (simp add: default_of_def dict_get_def)

lemma default_of_absent: "k \<notin> set (map fst opts) \<Longrightarrow> default_of opts k = None"
  by (simp add: default_of_def dict_get_def map_of_eq_None_iff[THEN iffD2])

lemma dict_get_load_defaults:
  "is_dict opts \<Longrightarrow>
   dict_get (load_defaults opts store) k =
     (case default_of opts k of Some d \<Rightarrow> Some d | None \<Rightarrow> dict_get store k)"
proof (induction opts arbitrary: store)
  case Nil
  then show ?case by (simp add: default_of_def dict_get_def)
next
  case (Cons x rest)
  obtain k0 meta where x: "x = (k0, meta)" by (cases x)
  have r: "is_dict rest" and k0: "k0 \<notin> set (map fst rest)"
    using Cons.prems by (auto simp: is_dict_def x)
  show ?case
    using default_of_absent[OF k0]
    by (auto simp: x Cons.IH[OF r] default_of_Cons dict_get_set split: option.splits)
qed

lemma default_of_member:
  "is_dict opts \<Longrightarrow> (k, v) \<in> set opts \<Longrightarrow> default_of opts k = dict_get v ''default''"
  by (simp add: default_of_def dict_get_def is_dict_def)

text \<open>
  Claim C6. For a loaded module whose \<^verbatim>\<open>OPTIONS\<close> follows the module contract,
  \<^verbatim>\<open>get_options\<close> returns one entry for each option of the schema, in the order of the
  schema. The \<^verbatim>\<open>value\<close> of an entry is the value stored for the option if there is one,
  else the default the schema declares, else \<^verbatim>\<open>None\<close>; the other fields of the entry are
  those of the schema. In a session that \<^verbatim>\<open>use\<close> has just loaded, after
  \<^verbatim>\<open>set_option(n, x)\<close> the entry of \<open>n\<close> shows \<open>x\<close> and every other entry shows its
  default.
\<close>

theorem get_options_spec:
  assumes "OPTIONS (module inst) = Some opts" and "is_schema opts"
  shows "\<exists>res. get_options inst = Inr res \<and> map fst res = map fst opts
     \<and> (\<forall>k v. (k, v) \<in> set opts \<longrightarrow>
           shown_value res k =
             Some (case dict_get (options inst) k of
                     Some x \<Rightarrow> x
                   | None \<Rightarrow> (case dict_get v ''default'' of Some d \<Rightarrow> d | None \<Rightarrow> PNone))
           \<and> (\<forall>e f. dict_get res k = Some e \<longrightarrow> f \<noteq> ''value'' \<longrightarrow> dict_get e f = dict_get v f))
     \<and> (\<forall>n x. dict_contains n opts \<longrightarrow> options inst = load_defaults opts [] \<longrightarrow>
           (\<exists>inst' res'. set_option inst n x = Inr inst' \<and> get_options inst' = Inr res'
              \<and> (\<forall>k v. (k, v) \<in> set opts \<longrightarrow>
                    shown_value res' k =
                      Some (if k = n then x
                            else (case dict_get v ''default'' of Some d \<Rightarrow> d | None \<Rightarrow> PNone)))))"
proof -
  have d: "is_dict opts" using assms(2) by (simp add: is_schema_def)
  obtain res where res: "get_options inst = Inr res" "map fst res = map fst opts"
    using get_options_keys[OF assms(1) d] by blast
  have one: "shown_value res k = Some (option_value (options inst) k v) \<and>
       (\<forall>e f. dict_get res k = Some e \<longrightarrow> f \<noteq> ''value'' \<longrightarrow> dict_get e f = dict_get v f)"
    if "(k, v) \<in> set opts" for k v
    using get_options_shown[OF assms that] res(1) by simp
  have two: "\<exists>inst' res'. set_option inst n x = Inr inst' \<and> get_options inst' = Inr res'
              \<and> (\<forall>k v. (k, v) \<in> set opts \<longrightarrow>
                    shown_value res' k =
                      Some (if k = n then x
                            else (case dict_get v ''default'' of Some d \<Rightarrow> d | None \<Rightarrow> PNone)))"
    if n: "dict_contains n opts" and fresh: "options inst = load_defaults opts []" for n x
  proof -
    let ?inst' = "inst\<lparr>options := dict_set (options inst) n x\<rparr>"
    have m: "OPTIONS (module ?inst') = Some opts" using assms(1) by simp
    obtain res' where res': "get_options ?inst' = Inr res'"
      using get_options_keys[OF m d] by blast
    have "shown_value res' k =
            Some (if k = n then x
                  else (case dict_get v ''default'' of Some d \<Rightarrow> d | None \<Rightarrow> PNone))"
      if kv: "(k, v) \<in> set opts" for k v
    proof -
      have "shown_value res' k = Some (option_value (options ?inst') k v)"
        using get_options_shown[OF m assms(2) kv] res' by simp
      moreover have "dict_get (options inst) k = dict_get v ''default''" if "k \<noteq> n"
        by (simp add: fresh dict_get_load_defaults[OF d] default_of_member[OF d kv] dict_get_Nil
            split: option.splits)
      ultimately show ?thesis
        by (auto simp: option_value_def dict_get_set split: option.splits)
    qed
    then show ?thesis
      using set_option_known[OF assms(1) n] res' by blast
  qed
  show ?thesis
    using res one two unfolding option_value_def by blast
qed

theorem get_options_spec_witness:
  "OPTIONS (module echo_instance) = Some echo_options
   \<and> is_schema echo_options
   \<and> dict_contains ''MSG'' echo_options
   \<and> options echo_instance = load_defaults echo_options []
   \<and> (\<exists>res. get_options echo_instance = Inr res \<and> map fst res = map fst echo_options
         \<and> shown_value res ''MSG'' = Some (PStr []))
   \<and> (\<exists>inst' res'. set_option echo_instance ''MSG'' (PStr ''hi'') = Inr inst'
         \<and> get_options inst' = Inr res' \<and> shown_value res' ''MSG'' = Some (PStr ''hi''))"
proof -
  have h: "OPTIONS (module echo_instance) = Some echo_options" "is_schema echo_options"
    by (simp_all add: echo_instance_def echo_module_def echo_options_def is_schema_def is_dict_def
        dict_contains_def)
  have c: "dict_contains ''MSG'' echo_options" "options echo_instance = load_defaults echo_options []"
    by (simp_all add: echo_instance_def echo_options_def dict_contains_def dict_get_def)
  have m: "(''MSG'', [(''required'', PBool True), (''default'', PStr []),
                (''description'', PStr ''Message to echo'')]) \<in> set echo_options"
    by (simp add: echo_options_def)
  from get_options_spec [OF h] obtain res where res: "get_options echo_instance = Inr res"
    "map fst res = map fst echo_options"
    "\<forall>k v. (k, v) \<in> set echo_options \<longrightarrow>
           shown_value res k =
             Some (case dict_get (options echo_instance) k of
                     Some x \<Rightarrow> x
                   | None \<Rightarrow> (case dict_get v ''default'' of Some d \<Rightarrow> d | None \<Rightarrow> PNone))
           \<and> (\<forall>e f. dict_get res k = Some e \<longrightarrow> f \<noteq> ''value'' \<longrightarrow> dict_get e f = dict_get v f)"
    "\<forall>n x. dict_contains n echo_options \<longrightarrow> options echo_instance = load_defaults echo_options [] \<longrightarrow>
           (\<exists>inst' res'. set_option echo_instance n x = Inr inst' \<and> get_options inst' = Inr res'
              \<and> (\<forall>k v. (k, v) \<in> set echo_options \<longrightarrow>
                    shown_value res' k =
                      Some (if k = n then x
                            else (case dict_get v ''default'' of Some d \<Rightarrow> d | None \<Rightarrow> PNone))))"
    by blast
  have one: "shown_value res ''MSG'' = Some (PStr [])"
    using res(3) m by (simp add: echo_instance_def dict_get_def)
  obtain inst' res' where two: "set_option echo_instance ''MSG'' (PStr ''hi'') = Inr inst'"
    "get_options inst' = Inr res'"
    "\<forall>k v. (k, v) \<in> set echo_options \<longrightarrow>
        shown_value res' k =
          Some (if k = ''MSG'' then PStr ''hi''
                else (case dict_get v ''default'' of Some d \<Rightarrow> d | None \<Rightarrow> PNone))"
    using res(4) c by blast
  have "shown_value res' ''MSG'' = Some (PStr ''hi'')"
    using two(3) m by simp
  then show ?thesis
    using h c res(1,2) one two(1,2) by blast
qed

section \<open>Loading a module\<close>

lemma cmd_use_success:
  assumes "import_module fs self (resolve_key (modules self) a) = Inr m" and "OPTIONS m = Some opts"
  shows "cmd_use fs self (a # as) =
           (self\<lparr>loaded_module :=
               Some \<lparr>name = resolve_key (modules self) a, module = m,
                     options = load_defaults opts []\<rparr>\<rparr>,
            [Print (''Loaded module '' @ resolve_key (modules self) a)])"
  using assms by (simp add: cmd_use_def Let_def)

lemma dict_get_fresh_defaults: "is_dict opts \<Longrightarrow> dict_get (load_defaults opts []) k = default_of opts k"
  by (simp add: dict_get_load_defaults dict_get_Nil split: option.splits)

text \<open>
  Claim C10. When executing the file gives a module with a schema, \<^verbatim>\<open>use\<close> loads it and
  the option store of the new session is the declared defaults: an option of the schema
  that declares a default is stored with that default, an option that declares none
  has no entry, and neither has a name outside the schema.
\<close>

theorem use_stores_defaults:
  assumes "import_module fs self (resolve_key (modules self) a) = Inr m"
    and "OPTIONS m = Some opts" and "is_dict opts"
  shows "\<exists>inst. cmd_use fs self (a # as) =
                  (self\<lparr>loaded_module := Some inst\<rparr>,
                   [Print (''Loaded module '' @ resolve_key (modules self) a)])
           \<and> name inst = resolve_key (modules self) a \<and> module inst = m
           \<and> (\<forall>k. dict_get (options inst) k = default_of opts k)
           \<and> (\<forall>k meta d. (k, meta) \<in> set opts \<longrightarrow> dict_get meta ''default'' = Some d \<longrightarrow>
                  dict_get (options inst) k = Some d)
           \<and> (\<forall>k meta. (k, meta) \<in> set opts \<longrightarrow> dict_get meta ''default'' = None \<longrightarrow>
                  \<not> dict_contains k (options inst))
           \<and> (\<forall>k. \<not> dict_contains k opts \<longrightarrow> \<not> dict_contains k (options inst))"
proof -
  let ?inst = "\<lparr>name = resolve_key (modules self) a, module = m, options = load_defaults opts []\<rparr>"
  have g: "dict_get (options ?inst) k = default_of opts k" for k
    using assms(3) by (simp add: dict_get_fresh_defaults)
  have "dict_get (options ?inst) k = dict_get meta ''default''" if "(k, meta) \<in> set opts" for k meta
    using g default_of_member[OF assms(3) that] by simp
  moreover have "\<not> dict_contains k (options ?inst)" if "\<not> dict_contains k opts" for k
    using g[of k] that by (simp add: dict_contains_get default_of_def)
  ultimately show ?thesis
    using cmd_use_success[OF assms(1,2)] g
    by (intro exI[of _ ?inst]) (simp add: dict_contains_get)
qed

theorem use_stores_defaults_witness:
  "import_module example_fs example_registry (resolve_key (modules example_registry) ''probe.py'')
     = Inr probe_module
   \<and> OPTIONS probe_module = Some probe_options \<and> is_dict probe_options
   \<and> (\<exists>inst. cmd_use example_fs example_registry [''probe.py'']
                 = (example_registry\<lparr>loaded_module := Some inst\<rparr>,
                    [Print ''Loaded module modules/probe.py''])
          \<and> dict_get (options inst) ''PORT'' = Some (PStr ''80'')
          \<and> \<not> dict_contains ''TARGET'' (options inst))"
proof -
  have k: "resolve_key (modules example_registry) ''probe.py'' = ''modules/probe.py''"
    by (simp add: resolve_key_def example_registry_def dict_contains_def)
  have h: "import_module example_fs example_registry (resolve_key (modules example_registry) ''probe.py'')
     = Inr probe_module" "OPTIONS probe_module = Some probe_options" "is_dict probe_options"
    unfolding k
    by (simp_all add: import_module_def example_registry_def example_fs_def dict_get_def
        probe_module_def probe_options_def is_dict_def)
  have m: "(''PORT'', [(''default'', PStr ''80'')]) \<in> set probe_options"
    "(''TARGET'', [(''required'', PBool True)]) \<in> set probe_options"
    by (simp_all add: probe_options_def)
  from use_stores_defaults [OF h, of "[]"] obtain inst where i:
    "cmd_use example_fs example_registry [''probe.py'']
       = (example_registry\<lparr>loaded_module := Some inst\<rparr>, [Print ''Loaded module modules/probe.py''])"
    "\<forall>k meta d. (k, meta) \<in> set probe_options \<longrightarrow> dict_get meta ''default'' = Some d \<longrightarrow>
                  dict_get (options inst) k = Some d"
    "\<forall>k meta. (k, meta) \<in> set probe_options \<longrightarrow> dict_get meta ''default'' = None \<longrightarrow>
                  \<not> dict_contains k (options inst)"
    unfolding k by auto
  have "dict_get (options inst) ''PORT'' = Some (PStr ''80'')"
    using i(2) m(1) by (simp add: dict_get_def)
  moreover have "\<not> dict_contains ''TARGET'' (options inst)"
    using i(3) m(2) by (simp add: dict_get_def)
  ultimately show ?thesis
    using h i(1) by blast
qed

lemma import_module_unknown:
  "\<not> dict_contains key (modules self) \<Longrightarrow> import_module fs self key = Inl (KeyError key)"
  by (cases "dict_get (modules self) key") (simp_all add: import_module_def dict_contains_get)

text \<open>
  Claim C7. When the key that \<^verbatim>\<open>use\<close> resolves its argument to is not in the registry,
  or executing the file raises, or the module it gives has no \<^verbatim>\<open>OPTIONS\<close>, the command
  prints a load error and returns the framework as it was: the loaded module, with its
  option store, and the registry are unchanged. For an unknown key the error is the
  \<^verbatim>\<open>KeyError\<close> of that key.
\<close>

theorem use_failure_keeps_session:
  assumes "\<not> dict_contains (resolve_key (modules self) a) (modules self)
           \<or> (\<exists>e. import_module fs self (resolve_key (modules self) a) = Inl e)
           \<or> (\<exists>m. import_module fs self (resolve_key (modules self) a) = Inr m \<and> OPTIONS m = None)"
  shows "fst (cmd_use fs self (a # as)) = self
         \<and> (\<exists>e. snd (cmd_use fs self (a # as)) = [PrintError ''Load error:'' e])
         \<and> (\<not> dict_contains (resolve_key (modules self) a) (modules self) \<longrightarrow>
              snd (cmd_use fs self (a # as))
                = [PrintError ''Load error:'' (KeyError (resolve_key (modules self) a))])"
proof -
  consider (err) e where "import_module fs self (resolve_key (modules self) a) = Inl e"
    | (noopt) m where "import_module fs self (resolve_key (modules self) a) = Inr m" "OPTIONS m = None"
    using assms import_module_unknown by blast
  then show ?thesis
  proof cases
    case err
    then show ?thesis
      by (auto simp: cmd_use_def Let_def import_module_unknown)
  next
    case noopt
    then have "dict_contains (resolve_key (modules self) a) (modules self)"
      using import_module_unknown[of "resolve_key (modules self) a" self fs] by auto
    with noopt show ?thesis
      by (simp add: cmd_use_def Let_def)
  qed
qed

theorem use_failure_keeps_session_witness:
  "\<not> dict_contains (resolve_key (modules echo_loaded) ''nothere'') (modules echo_loaded)
   \<and> cmd_use example_fs echo_loaded [''nothere'']
       = (echo_loaded, [PrintError ''Load error:'' (KeyError ''nothere'')])
   \<and> import_module example_fs echo_loaded (resolve_key (modules echo_loaded) ''locked.py'')
       = Inl (Raised ''PermissionError'')
   \<and> fst (cmd_use example_fs echo_loaded [''locked.py'']) = echo_loaded
   \<and> import_module example_fs echo_loaded (resolve_key (modules echo_loaded) ''bare.py'')
       = Inr bare_module
   \<and> OPTIONS bare_module = None
   \<and> fst (cmd_use example_fs echo_loaded [''bare.py'']) = echo_loaded
   \<and> loaded_module echo_loaded = Some echo_instance"
proof -
  have k: "resolve_key (modules echo_loaded) ''nothere'' = ''nothere''"
    "resolve_key (modules echo_loaded) ''locked.py'' = ''modules/locked.py''"
    "resolve_key (modules echo_loaded) ''bare.py'' = ''modules/bare.py''"
    by (simp_all add: resolve_key_def echo_loaded_def example_registry_def dict_contains_def)
  have a: "\<not> dict_contains (resolve_key (modules echo_loaded) ''nothere'') (modules echo_loaded)"
    unfolding k by (simp add: echo_loaded_def example_registry_def dict_contains_def)
  have b: "import_module example_fs echo_loaded (resolve_key (modules echo_loaded) ''locked.py'')
       = Inl (Raised ''PermissionError'')"
    unfolding k
    by (simp add: import_module_def echo_loaded_def example_registry_def example_fs_def dict_get_def)
  have c: "import_module example_fs echo_loaded (resolve_key (modules echo_loaded) ''bare.py'')
       = Inr bare_module" "OPTIONS bare_module = None"
    unfolding k
    by (simp_all add: import_module_def echo_loaded_def example_registry_def example_fs_def
        dict_get_def bare_module_def)
  have "cmd_use example_fs echo_loaded [''nothere'']
       = (echo_loaded, [PrintError ''Load error:'' (KeyError ''nothere'')])"
    using use_failure_keeps_session [of echo_loaded "''nothere''" example_fs "[]"] a
    unfolding k by (simp add: prod_eq_iff)
  moreover have "fst (cmd_use example_fs echo_loaded [''locked.py'']) = echo_loaded"
    using use_failure_keeps_session [of echo_loaded "''locked.py''" example_fs "[]"] b by blast
  moreover have "fst (cmd_use example_fs echo_loaded [''bare.py'']) = echo_loaded"
    using use_failure_keeps_session [of echo_loaded "''bare.py''" example_fs "[]"] c by blast
  moreover have "loaded_module echo_loaded = Some echo_instance"
    by (simp add: echo_loaded_def)
  ultimately show ?thesis
    using a b c by blast
qed

section \<open>Running the loaded module\<close>

lemma override_of_snoc:
  "override_of opts (cmds @ [c]) k =
     (if 2 \<le> length c \<and> hd c = k \<and> dict_contains k opts then Some (join '' '' (tl c))
      else override_of opts cmds k)"
  by (simp add: override_of_def Let_def)

lemma cmd_set_loaded:
  assumes "loaded_module s = Some inst" and "OPTIONS (module inst) = Some opts"
  shows "fst (cmd_set s c) =
           (if 2 \<le> length c \<and> dict_contains (hd c) opts
            then s\<lparr>loaded_module :=
                    Some (inst\<lparr>options := dict_set (options inst) (hd c) (PStr (join '' '' (tl c)))\<rparr>)\<rparr>
            else s)"
  using assms
  by (auto simp: cmd_set_def Let_def set_option_def)

lemma run_sets_invariant:
  assumes "loaded_module s = Some inst" and "OPTIONS (module inst) = Some opts"
  shows "\<exists>inst'. run_sets s cmds = s\<lparr>loaded_module := Some inst'\<rparr>
           \<and> name inst' = name inst \<and> module inst' = module inst
           \<and> (\<forall>k. dict_get (options inst') k =
                  (case override_of opts cmds k of
                     Some v \<Rightarrow> Some (PStr v)
                   | None \<Rightarrow> dict_get (options inst) k))"
proof (induction cmds rule: rev_induct)
  case Nil
  show ?case
    using assms(1) by (intro exI[of _ inst]) (simp add: run_sets_def override_of_def)
next
  case (snoc c cmds)
  then obtain i where i: "run_sets s cmds = s\<lparr>loaded_module := Some i\<rparr>"
    "name i = name inst" "module i = module inst"
    "\<forall>k. dict_get (options i) k =
        (case override_of opts cmds k of Some v \<Rightarrow> Some (PStr v) | None \<Rightarrow> dict_get (options inst) k)"
    by blast
  have l: "loaded_module (run_sets s cmds) = Some i" and o: "OPTIONS (module i) = Some opts"
    using i(1,3) assms(2) by simp_all
  have step: "run_sets s (cmds @ [c]) = fst (cmd_set (run_sets s cmds) c)"
    by (simp add: run_sets_def)
  show ?case
  proof (cases "2 \<le> length c \<and> dict_contains (hd c) opts")
    case True
    let ?i' = "i\<lparr>options := dict_set (options i) (hd c) (PStr (join '' '' (tl c)))\<rparr>"
    have "run_sets s (cmds @ [c]) = (run_sets s cmds)\<lparr>loaded_module := Some ?i'\<rparr>"
      unfolding step cmd_set_loaded[OF l o] using True by simp
    then have "run_sets s (cmds @ [c]) = s\<lparr>loaded_module := Some ?i'\<rparr>"
      by (simp add: i(1))
    moreover have "\<forall>k. dict_get (options ?i') k =
        (case override_of opts (cmds @ [c]) k of
           Some v \<Rightarrow> Some (PStr v) | None \<Rightarrow> dict_get (options inst) k)"
      using True i(4) by (auto simp: override_of_snoc dict_get_set)
    ultimately show ?thesis
      using i(2,3) by (intro exI[of _ ?i']) simp
  next
    case False
    have "run_sets s (cmds @ [c]) = run_sets s cmds"
      unfolding step cmd_set_loaded[OF l o] using False by auto
    then have "run_sets s (cmds @ [c]) = s\<lparr>loaded_module := Some i\<rparr>"
      by (simp add: i(1))
    moreover have "override_of opts (cmds @ [c]) k = override_of opts cmds k" for k
      using False by (auto simp: override_of_snoc)
    ultimately show ?thesis
      using i(2,3,4) by (intro exI[of _ i]) simp
  qed
qed

text \<open>
  Claim C1, as the claim states it, fails: a module may declare an option with no
  default. After \<^verbatim>\<open>use\<close> the store of the session of \<^verbatim>\<open>probe.py\<close> has an entry for
  \<^verbatim>\<open>PORT\<close> only, and \<^verbatim>\<open>run\<close>, which prints the names of the options it is given, prints
  \<^verbatim>\<open>PORT\<close>: the mapping it receives does not contain the declared option \<^verbatim>\<open>TARGET\<close>.
\<close>

theorem run_receives_declared_counterexample:
  "cmd_use example_fs example_registry [''probe.py'']
     = (example_registry\<lparr>loaded_module := Some probe_instance\<rparr>,
        [Print ''Loaded module modules/probe.py''])
   \<and> OPTIONS (module probe_instance) = Some probe_options
   \<and> dict_contains ''TARGET'' probe_options
   \<and> \<not> dict_contains ''TARGET'' (options probe_instance)
   \<and> ModuleInstance_run probe_instance (session example_registry) = Inr [''PORT'']
   \<and> cmd_run (example_registry\<lparr>loaded_module := Some probe_instance\<rparr>) []
       = (example_registry\<lparr>loaded_module := Some probe_instance\<rparr>, [Print ''PORT''])"
  by (simp add: cmd_use_def cmd_run_def ModuleInstance_run_def import_module_def resolve_key_def
      example_registry_def example_fs_def probe_instance_def probe_module_def probe_options_def
      print_names_def dict_contains_def dict_get_def Let_def)

text \<open>
  Claim C1, amended. \<^verbatim>\<open>run\<close> calls the module's \<^verbatim>\<open>run\<close> with the session context and
  with the option store of the session itself. After a successful \<^verbatim>\<open>use\<close> and any run
  of \<^verbatim>\<open>set\<close> commands, the store binds a name to the value last set for it if one was
  set, else to the default the schema declares for it; an option that declares no
  default and was never set is not in the mapping, and neither is a name outside the
  schema.
\<close>

theorem run_receives_store:
  assumes "import_module fs self (resolve_key (modules self) a) = Inr m"
    and "OPTIONS m = Some opts" and "is_dict opts" and "run m = Some f"
  shows "\<exists>inst. run_sets (fst (cmd_use fs self (a # as))) cmds = self\<lparr>loaded_module := Some inst\<rparr>
           \<and> module inst = m
           \<and> ModuleInstance_run inst (session self) = f (session self) (options inst)
           \<and> cmd_run (self\<lparr>loaded_module := Some inst\<rparr>) args =
                (self\<lparr>loaded_module := Some inst\<rparr>,
                 case f (session self) (options inst) of
                   Inl e \<Rightarrow> [PrintError ''Run error:'' e]
                 | Inr out \<Rightarrow> map Print out)
           \<and> (\<forall>k. dict_get (options inst) k =
                  (case override_of opts cmds k of
                     Some v \<Rightarrow> Some (PStr v)
                   | None \<Rightarrow> default_of opts k))"
proof -
  let ?i0 = "\<lparr>name = resolve_key (modules self) a, module = m, options = load_defaults opts []\<rparr>"
  let ?s0 = "self\<lparr>loaded_module := Some ?i0\<rparr>"
  have u: "fst (cmd_use fs self (a # as)) = ?s0"
    using cmd_use_success[OF assms(1,2)] by simp
  have "loaded_module ?s0 = Some ?i0" "OPTIONS (module ?i0) = Some opts"
    using assms(2) by simp_all
  from run_sets_invariant[OF this, of cmds] obtain inst where
    i: "run_sets ?s0 cmds = ?s0\<lparr>loaded_module := Some inst\<rparr>" "module inst = module ?i0"
      "\<forall>k. dict_get (options inst) k =
          (case override_of opts cmds k of Some v \<Rightarrow> Some (PStr v) | None \<Rightarrow> dict_get (options ?i0) k)"
    by blast
  have r: "ModuleInstance_run inst (session self) = f (session self) (options inst)"
    using i(2) assms(4) by (simp add: ModuleInstance_run_def)
  have "cmd_run (self\<lparr>loaded_module := Some inst\<rparr>) args =
                (self\<lparr>loaded_module := Some inst\<rparr>,
                 case f (session self) (options inst) of
                   Inl e \<Rightarrow> [PrintError ''Run error:'' e]
                 | Inr out \<Rightarrow> map Print out)"
    using r by (simp add: cmd_run_def split: sum.splits)
  moreover have "\<forall>k. dict_get (options inst) k =
                  (case override_of opts cmds k of Some v \<Rightarrow> Some (PStr v) | None \<Rightarrow> default_of opts k)"
    using i(3) assms(3) by (simp add: dict_get_fresh_defaults split: option.splits)
  ultimately show ?thesis
    using i(1,2) r u by (intro exI[of _ inst]) simp
qed

theorem run_receives_store_witness:
  "import_module example_fs example_registry (resolve_key (modules example_registry) ''aux/echo.py'')
     = Inr echo_module
   \<and> OPTIONS echo_module = Some echo_options \<and> is_dict echo_options
   \<and> run echo_module = Some echo_run
   \<and> (\<exists>inst. run_sets (fst (cmd_use example_fs example_registry [''aux/echo.py''])) [[''MSG'', ''hi'']]
                 = example_registry\<lparr>loaded_module := Some inst\<rparr>
          \<and> dict_get (options inst) ''MSG'' = Some (PStr ''hi'')
          \<and> ModuleInstance_run inst (session example_registry) = Inr [''ECHO: hi''])"
proof -
  have k: "resolve_key (modules example_registry) ''aux/echo.py'' = ''examples/aux/echo.py''"
    by (simp add: resolve_key_def example_registry_def dict_contains_def)
  have h: "import_module example_fs example_registry
             (resolve_key (modules example_registry) ''aux/echo.py'') = Inr echo_module"
    "OPTIONS echo_module = Some echo_options" "is_dict echo_options" "run echo_module = Some echo_run"
    unfolding k
    by (simp_all add: import_module_def example_registry_def example_fs_def dict_get_def
        echo_module_def echo_options_def is_dict_def)
  have o: "override_of echo_options [[''MSG'', ''hi'']] ''MSG'' = Some ''hi''"
    by (simp add: override_of_def echo_options_def dict_contains_def)
  from run_receives_store [OF h, of "[]" "[[''MSG'', ''hi'']]" "[]"] obtain inst where i:
    "run_sets (fst (cmd_use example_fs example_registry [''aux/echo.py''])) [[''MSG'', ''hi'']]
       = example_registry\<lparr>loaded_module := Some inst\<rparr>"
    "ModuleInstance_run inst (session example_registry)
       = echo_run (session example_registry) (options inst)"
    "\<forall>k. dict_get (options inst) k =
        (case override_of echo_options [[''MSG'', ''hi'']] k of
           Some v \<Rightarrow> Some (PStr v) | None \<Rightarrow> default_of echo_options k)"
    by blast
  have g: "dict_get (options inst) ''MSG'' = Some (PStr ''hi'')"
    using i(3) o by simp
  have "ModuleInstance_run inst (session example_registry) = Inr [''ECHO: hi'']"
    by (simp add: i(2) echo_run_def g)
  then show ?thesis
    using h i(1) g by blast
qed

section \<open>Searching\<close>

lemma search_loop_filter:
  "search_loop ucd keyword md results =
     results @ map (\<lambda>(k, m). (k, description m))
       (filter (\<lambda>(k, m). sublist keyword (str_lower ucd k)
                        \<or> sublist keyword (str_lower ucd (description m))) md)"
proof (induction md arbitrary: results)
  case Nil
  then show ?case by simp
next
  case (Cons x md)
  obtain k m where x: "x = (k, m)" by (cases x)
  show ?case by (simp add: x Cons.IH)
qed

lemma str_lower_latin1: "latin1 s \<Longrightarrow> str_lower ucd s = map lower_latin1 s"
proof -
  assume l: "latin1 s"
  have "map (\<lambda>i. if s ! i < 256 then [lower_latin1 (s ! i)] else ucd s i) [0..<length s]
        = map (\<lambda>i. [lower_latin1 (s ! i)]) [0..<length s]"
    using l by (auto simp: latin1_def list_all_length)
  also have "\<dots> = map (\<lambda>c. [lower_latin1 c]) (map (\<lambda>i. s ! i) [0..<length s])"
    by simp
  also have "\<dots> = map (\<lambda>c. [lower_latin1 c]) s"
    by (simp only: map_nth)
  finally show ?thesis
    by (simp add: str_lower_def concat_map_singleton)
qed

lemma lower_latin1_eq_iff:
  "a < 256 \<Longrightarrow> b < 256 \<Longrightarrow> lower_latin1 a = lower_latin1 b \<longleftrightarrow> same_up_to_case a b"
  by (auto simp: lower_latin1_def same_up_to_case_def is_capital_def split: if_splits)

lemma map_lower_eq_iff:
  "latin1 part \<Longrightarrow> latin1 keyword \<Longrightarrow>
   map lower_latin1 part = map lower_latin1 keyword \<longleftrightarrow> list_all2 same_up_to_case part keyword"
proof (induction part arbitrary: keyword)
  case Nil
  then show ?case by auto
next
  case (Cons a part)
  show ?case
  proof (cases keyword)
    case Nil
    then show ?thesis by simp
  next
    case (Cons b kw)
    have "a < 256" "b < 256" "latin1 part" "latin1 kw"
      using Cons.prems Cons by (simp_all add: latin1_def)
    then show ?thesis
      using Cons.IH[of kw] Cons by (simp add: lower_latin1_eq_iff)
  qed
qed

lemma latin1_append: "latin1 (xs @ ys) \<longleftrightarrow> latin1 xs \<and> latin1 ys"
  by (simp add: latin1_def)

lemma sublist_lower_iff:
  assumes "latin1 keyword" "latin1 s"
  shows "sublist (str_lower ucd keyword) (str_lower ucd s) \<longleftrightarrow> contains_ignoring_case keyword s"
proof
  assume "sublist (str_lower ucd keyword) (str_lower ucd s)"
  then obtain ps ss where "map lower_latin1 s = ps @ (map lower_latin1 keyword @ ss)"
    unfolding sublist_def str_lower_latin1[OF assms(1)] str_lower_latin1[OF assms(2)] by blast
  from map_eq_append_conv [THEN iffD1, OF this]
  obtain before rest where b: "s = before @ rest" "map lower_latin1 keyword @ ss = map lower_latin1 rest"
    by blast
  from map_eq_append_conv [THEN iffD1, OF b(2) [symmetric]]
  obtain part after where p: "rest = part @ after" "map lower_latin1 keyword = map lower_latin1 part"
    by blast
  have "latin1 part"
    using assms(2) b(1) p(1) by (simp add: latin1_append)
  then have "list_all2 same_up_to_case part keyword"
    using p(2) assms(1) by (simp add: map_lower_eq_iff[symmetric])
  then show "contains_ignoring_case keyword s"
    unfolding contains_ignoring_case_def using b(1) p(1) by blast
next
  assume "contains_ignoring_case keyword s"
  then obtain before part after where c: "s = before @ part @ after" "list_all2 same_up_to_case part keyword"
    unfolding contains_ignoring_case_def by blast
  have "latin1 part"
    using assms(2) c(1) by (simp add: latin1_append)
  then have "map lower_latin1 part = map lower_latin1 keyword"
    using c(2) assms(1) by (simp add: map_lower_eq_iff)
  then have "map lower_latin1 s = map lower_latin1 before @ map lower_latin1 keyword @ map lower_latin1 after"
    unfolding c(1) by simp
  then show "sublist (str_lower ucd keyword) (str_lower ucd s)"
    unfolding sublist_def str_lower_latin1[OF assms(1)] str_lower_latin1[OF assms(2)] by blast
qed

lemma contains_single:
  "contains_ignoring_case [x] s \<longleftrightarrow> list_ex (\<lambda>c. same_up_to_case c x) s"
proof
  assume "contains_ignoring_case [x] s"
  then obtain before part after where c: "s = before @ part @ after" "list_all2 same_up_to_case part [x]"
    unfolding contains_ignoring_case_def by blast
  from c(2) obtain y where "part = [y]" "same_up_to_case y x"
    by (auto simp: list_all2_Cons2)
  then show "list_ex (\<lambda>c. same_up_to_case c x) s"
    using c(1) by (auto simp: list_ex_iff)
next
  assume "list_ex (\<lambda>c. same_up_to_case c x) s"
  then obtain y where y: "y \<in> set s" "same_up_to_case y x"
    by (auto simp: list_ex_iff)
  then obtain before after where "s = before @ [y] @ after"
    by (auto dest: split_list)
  then have "s = before @ [y] @ after \<and> list_all2 same_up_to_case [y] [x]"
    using y(2) by simp
  then show "contains_ignoring_case [x] s"
    unfolding contains_ignoring_case_def by blast
qed

text \<open>
  Claim C8, as the claim states it, fails. The key made of K, U+0130 and \<^verbatim>\<open>.py\<close> contains neither the
  combining dot above, U+0307, nor the letter I in either case, but its lowering does:
  U+0130 lowers to i followed by U+0307. The search for either keyword returns the key.
\<close>

theorem search_ignoring_case_counterexample:
  "search_modules dotted_table [(dotted_key, \<lparr>description = [], declared_options = []\<rparr>)] [0x307]
     = [(dotted_key, [])]
   \<and> \<not> contains_ignoring_case [0x307] dotted_key
   \<and> \<not> contains_ignoring_case [0x307] []
   \<and> search_modules dotted_table [(dotted_key, \<lparr>description = [], declared_options = []\<rparr>)] [0x49]
     = [(dotted_key, [])]
   \<and> \<not> contains_ignoring_case [0x49] dotted_key
   \<and> \<not> contains_ignoring_case [0x49] []"
proof -
  have l: "str_lower dotted_table dotted_key = [0x6B, 0x69, 0x307, 0x2E, 0x70, 0x79]"
    "str_lower dotted_table [0x307] = [0x307]" "str_lower dotted_table [0x49] = [0x69]"
    "str_lower dotted_table [] = []"
    by (simp_all add: str_lower_def dotted_key_def dotted_table_def lower_latin1_def upt_rec)
  have "search_modules dotted_table [(dotted_key, \<lparr>description = [], declared_options = []\<rparr>)] [0x307]
     = [(dotted_key, [])]"
    "search_modules dotted_table [(dotted_key, \<lparr>description = [], declared_options = []\<rparr>)] [0x49]
     = [(dotted_key, [])]"
    by (simp_all add: search_modules_def l sublist_code)
  moreover have "\<not> contains_ignoring_case [0x307] dotted_key" "\<not> contains_ignoring_case [0x307] []"
    "\<not> contains_ignoring_case [0x49] dotted_key" "\<not> contains_ignoring_case [0x49] []"
    by (simp_all add: contains_single dotted_key_def same_up_to_case_def is_capital_def)
  ultimately show ?thesis
    by (intro conjI)
qed

text \<open>
  Claim C8, amended. \<^verbatim>\<open>search_modules\<close> returns, in the order of the metadata map, the
  pair of key and description of exactly the entries for which the lowered keyword is a
  substring of the lowered key or of the lowered description. When the keyword, the
  keys and the descriptions have code points below 256 only, these are exactly the
  entries whose key or description contains the keyword as a substring when the case of
  letters is ignored. In every case the empty keyword returns every entry, and the
  search for a registered key returns that key among its results.
\<close>

theorem search_modules_lowered:
  "search_modules ucd md keyword =
     map (\<lambda>(k, m). (k, description m))
       (filter (\<lambda>(k, m). sublist (str_lower ucd keyword) (str_lower ucd k)
                        \<or> sublist (str_lower ucd keyword) (str_lower ucd (description m))) md)
   \<and> (latin1 keyword \<and> list_all (\<lambda>(k, m). latin1 k \<and> latin1 (description m)) md \<longrightarrow>
        search_modules ucd md keyword =
          map (\<lambda>(k, m). (k, description m))
            (filter (\<lambda>(k, m). contains_ignoring_case keyword k
                             \<or> contains_ignoring_case keyword (description m)) md))
   \<and> search_modules ucd md [] = map (\<lambda>(k, m). (k, description m)) md
   \<and> map fst (search_modules ucd md []) = map fst md
   \<and> (dict_contains key md \<longrightarrow> key \<in> set (map fst (search_modules ucd md key)))"
proof -
  have a: "search_modules ucd md kw =
     map (\<lambda>(k, m). (k, description m))
       (filter (\<lambda>(k, m). sublist (str_lower ucd kw) (str_lower ucd k)
                        \<or> sublist (str_lower ucd kw) (str_lower ucd (description m))) md)" for kw
    by (simp add: search_modules_def search_loop_filter)
  have b: "search_modules ucd md keyword =
          map (\<lambda>(k, m). (k, description m))
            (filter (\<lambda>(k, m). contains_ignoring_case keyword k
                             \<or> contains_ignoring_case keyword (description m)) md)"
    if kw: "latin1 keyword" and md: "list_all (\<lambda>(k, m). latin1 k \<and> latin1 (description m)) md"
  proof -
    have "filter (\<lambda>(k, m). sublist (str_lower ucd keyword) (str_lower ucd k)
                        \<or> sublist (str_lower ucd keyword) (str_lower ucd (description m))) md
          = filter (\<lambda>(k, m). contains_ignoring_case keyword k
                             \<or> contains_ignoring_case keyword (description m)) md"
      using md by (intro filter_cong refl) (auto simp: list_all_iff sublist_lower_iff[OF kw])
    then show ?thesis by (simp only: a)
  qed
  have c: "search_modules ucd md [] = map (\<lambda>(k, m). (k, description m)) md"
    by (simp add: a str_lower_def)
  have d: "key \<in> set (map fst (search_modules ucd md key))" if "dict_contains key md"
    using that by (force simp: a dict_contains_def)
  show ?thesis
    using a b c d by (simp add: comp_def case_prod_unfold)
qed

theorem search_modules_lowered_witness:
  "latin1 (codes ''ECHO'')
   \<and> list_all (\<lambda>(k, m). latin1 k \<and> latin1 (description m)) example_index
   \<and> contains_ignoring_case (codes ''ECHO'') (codes ''examples/aux/echo.py'')
   \<and> (codes ''examples/aux/echo.py'', codes ''Echo string back (safe)'')
         \<in> set (search_modules dotted_table example_index (codes ''ECHO''))
   \<and> search_modules dotted_table example_index (codes ''ECHO'')
       = [(codes ''examples/aux/echo.py'', codes ''Echo string back (safe)'')]
   \<and> \<not> contains_ignoring_case (codes ''ECHO'') (codes ''modules/probe.py'')
   \<and> dict_contains (codes ''modules/probe.py'') example_index
   \<and> codes ''modules/probe.py''
         \<in> set (map fst (search_modules dotted_table example_index (codes ''modules/probe.py'')))
   \<and> map fst (search_modules dotted_table example_index []) = map fst example_index"
proof -
  have l: "latin1 (codes ''ECHO'')" "latin1 (codes ''examples/aux/echo.py'')"
    "latin1 (codes ''modules/probe.py'')" "latin1 (codes ''Echo string back (safe)'')" "latin1 []"
    by (simp_all add: latin1_def codes_def)
  have la: "list_all (\<lambda>(k, m). latin1 k \<and> latin1 (description m)) example_index"
    by (simp add: example_index_def l)
  have d: "dict_contains (codes ''modules/probe.py'') example_index"
    by (simp add: example_index_def dict_contains_def)
  have "codes ''examples/aux/echo.py'' = codes ''examples/aux/'' @ codes ''echo'' @ codes ''.py''
        \<and> list_all2 same_up_to_case (codes ''echo'') (codes ''ECHO'')"
    by (simp add: codes_def same_up_to_case_def is_capital_def)
  then have c: "contains_ignoring_case (codes ''ECHO'') (codes ''examples/aux/echo.py'')"
    unfolding contains_ignoring_case_def by blast
  have ev: "search_modules dotted_table example_index (codes ''ECHO'')
       = [(codes ''examples/aux/echo.py'', codes ''Echo string back (safe)'')]"
    unfolding search_modules_def example_index_def
    by (simp add: str_lower_latin1 l) (simp add: codes_def lower_latin1_def sublist_code)
  note t = search_modules_lowered [of dotted_table example_index "codes ''ECHO''" "codes ''modules/probe.py''"]
  have eq: "search_modules dotted_table example_index (codes ''ECHO'') =
          map (\<lambda>(k, m). (k, description m))
            (filter (\<lambda>(k, m). contains_ignoring_case (codes ''ECHO'') k
                             \<or> contains_ignoring_case (codes ''ECHO'') (description m)) example_index)"
    using t l(1) la by blast
  have m: "(codes ''examples/aux/echo.py'', codes ''Echo string back (safe)'')
         \<in> set (search_modules dotted_table example_index (codes ''ECHO''))"
    unfolding eq using c by (force simp: example_index_def)
  have n: "\<not> contains_ignoring_case (codes ''ECHO'') (codes ''modules/probe.py'')"
  proof
    assume "contains_ignoring_case (codes ''ECHO'') (codes ''modules/probe.py'')"
    then have "(codes ''modules/probe.py'', [])
         \<in> set (search_modules dotted_table example_index (codes ''ECHO''))"
      unfolding eq by (force simp: example_index_def)
    then show False
      unfolding ev by (simp add: codes_def)
  qed
  have k: "codes ''modules/probe.py''
         \<in> set (map fst (search_modules dotted_table example_index (codes ''modules/probe.py'')))"
    using t d by blast
  have e: "map fst (search_modules dotted_table example_index []) = map fst example_index"
    using search_modules_lowered [of dotted_table example_index "[]" "[]"] by blast
  show ?thesis
    using l(1) la c m ev n d k e by (intro conjI)
qed

section \<open>Scanning\<close>

lemma scan_folder_maps:
  "modules (scan_folder fs (r, pre) s) =
     dict_update (modules s) (map (\<lambda>parts. (module_key fs pre parts, (r, parts))) (rglob_py fs r))
   \<and> metadata (scan_folder fs (r, pre) s) =
     dict_update (metadata s)
       (map (\<lambda>parts. (module_key fs pre parts, read_meta fs (r, parts))) (rglob_py fs r))
   \<and> loaded_module (scan_folder fs (r, pre) s) = loaded_module s
   \<and> session (scan_folder fs (r, pre) s) = session s"
proof -
  have "modules (foldl (\<lambda>s parts.
         let key = module_key fs pre parts; p = (r, parts) in
         s\<lparr>modules := dict_set (modules s) key p,
           metadata := dict_set (metadata s) key (read_meta fs p)\<rparr>) s xs) =
     dict_update (modules s) (map (\<lambda>parts. (module_key fs pre parts, (r, parts))) xs)
   \<and> metadata (foldl (\<lambda>s parts.
         let key = module_key fs pre parts; p = (r, parts) in
         s\<lparr>modules := dict_set (modules s) key p,
           metadata := dict_set (metadata s) key (read_meta fs p)\<rparr>) s xs) =
     dict_update (metadata s) (map (\<lambda>parts. (module_key fs pre parts, read_meta fs (r, parts))) xs)
   \<and> loaded_module (foldl (\<lambda>s parts.
         let key = module_key fs pre parts; p = (r, parts) in
         s\<lparr>modules := dict_set (modules s) key p,
           metadata := dict_set (metadata s) key (read_meta fs p)\<rparr>) s xs) = loaded_module s
   \<and> session (foldl (\<lambda>s parts.
         let key = module_key fs pre parts; p = (r, parts) in
         s\<lparr>modules := dict_set (modules s) key p,
           metadata := dict_set (metadata s) key (read_meta fs p)\<rparr>) s xs) = session s" for xs
    by (induction xs arbitrary: s) (simp_all add: dict_update_def Let_def)
  then show ?thesis
    by (simp add: scan_folder_def)
qed

lemma dict_update_append: "dict_update d (xs @ ys) = dict_update (dict_update d xs) ys"
  by (simp add: dict_update_def)

lemma scan_modules_maps:
  "modules (scan_modules fs self) = dict_update [] (map (\<lambda>p. (key_of fs p, p)) (discovered fs))"
  "metadata (scan_modules fs self) =
     dict_update [] (map (\<lambda>p. (key_of fs p, read_meta fs p)) (discovered fs))"
  "loaded_module (scan_modules fs self) = loaded_module self"
  "session (scan_modules fs self) = session self"
  by (simp_all add: scan_modules_def scan_folder_maps discovered_def key_of_def root_prefix_def
      dict_update_append comp_def)

lemma keys_dict_update_cong:
  "map fst d = map fst d' \<Longrightarrow> map fst items = map fst items' \<Longrightarrow>
   map fst (dict_update d items) = map fst (dict_update d' items')"
  unfolding dict_update_def
proof (induction items arbitrary: d d' items')
  case Nil
  then show ?case by simp
next
  case (Cons x xs)
  obtain a b where x: "x = (a, b)" by (cases x)
  from Cons.prems(2) obtain a' b' ys where i: "items' = (a', b') # ys" "a' = a" "map fst xs = map fst ys"
    by (cases items') (auto simp: x)
  have "map fst (dict_set d a b) = map fst (dict_set d' a b')"
    using Cons.prems(1) by (simp add: keys_dict_set)
  from Cons.IH[OF this i(3)] show ?case
    by (simp add: x i)
qed

lemma scan_same_keys:
  "map fst (modules (scan_modules fs self)) = map fst (metadata (scan_modules fs self))"
  unfolding scan_modules_maps
  by (rule keys_dict_update_cong) (simp_all add: comp_def)

lemma scan_example: "scan_modules example_fs unscanned = example_registry"
  by (simp add: scan_modules_def scan_folder_def example_fs_def unscanned_def example_registry_def
      module_key_def read_meta_def METADATA_READ_LINES_def probe_lines_def bare_lines_def
      echo_lines_def match_options_at_def match_description_at_def match_name_at_def
      is_space_def is_ident_def is_quote_def Let_def)

lemma takeWhile_sep: "sep \<notin> set x \<Longrightarrow> takeWhile (\<lambda>c. c \<noteq> sep) (x @ sep # a) = x"
  by (induction x) auto

lemma replace_sep_id: "sep \<notin> set x \<Longrightarrow> map (\<lambda>c. if c = sep then r else c) x = x"
  by (induction x) auto

lemma append_sep_eq:
  assumes "sep \<notin> set x" "sep \<notin> set y" "x @ sep # a = y @ sep # b"
  shows "x = y \<and> a = b"
proof -
  have "takeWhile (\<lambda>c. c \<noteq> sep) (x @ sep # a) = x" "takeWhile (\<lambda>c. c \<noteq> sep) (y @ sep # b) = y"
    using assms(1,2) by (simp_all add: takeWhile_sep)
  then have "x = y" using assms(3) by simp
  then show ?thesis using assms(3) by simp
qed

lemma join_inject:
  assumes "\<forall>c \<in> set xs. sep \<notin> set c" "\<forall>c \<in> set ys. sep \<notin> set c"
    and "xs \<noteq> []" "ys \<noteq> []" "join [sep] xs = join [sep] ys"
  shows "xs = ys"
  using assms
proof (induction xs arbitrary: ys)
  case Nil
  then show ?case by simp
next
  case (Cons x xs)
  obtain y ys' where ys: "ys = y # ys'" using Cons.prems(4) by (cases ys) auto
  have sx: "sep \<notin> set x" and sy: "sep \<notin> set y" using Cons.prems(1,2) ys by auto
  show ?case
  proof (cases xs)
    case xn: Nil
    show ?thesis
    proof (cases ys')
      case Nil
      then show ?thesis using Cons.prems(5) xn ys by simp
    next
      case (Cons y' ys'')
      then have "x = y @ sep # join [sep] (y' # ys'')"
        using Cons.prems(5) xn ys by simp
      then have "sep \<in> set x" by simp
      then show ?thesis using sx by simp
    qed
  next
    case xc: (Cons x' xs')
    show ?thesis
    proof (cases ys')
      case Nil
      then have "y = x @ sep # join [sep] (x' # xs')"
        using Cons.prems(5) xc ys by simp
      then have "sep \<in> set y" by simp
      then show ?thesis using sy by simp
    next
      case yc: (Cons y' ys'')
      have "x @ sep # join [sep] xs = y @ sep # join [sep] ys'"
        using Cons.prems(5) xc yc ys by simp
      from append_sep_eq[OF sx sy this] have e: "x = y" "join [sep] xs = join [sep] ys'"
        by simp_all
      have "xs = ys'"
        using Cons.prems(1,2) ys xc yc e(2) by (intro Cons.IH) auto
      then show ?thesis using e(1) ys by simp
    qed
  qed
qed

lemma replace_sep_join:
  "\<forall>c \<in> set xs. sep \<notin> set c \<Longrightarrow>
   map (\<lambda>c. if c = sep then CHR ''/'' else c) (join [sep] xs) = join ''/'' xs"
proof (induction "[sep]" xs rule: join.induct)
  case 1
  then show ?case by simp
next
  case (2 x)
  then show ?case by (simp add: replace_sep_id)
next
  case (3 x y ys)
  then have "map (\<lambda>c. if c = sep then CHR ''/'' else c) x = x"
    by (simp add: replace_sep_id)
  with 3 show ?case by simp
qed

lemma key_of_inject:
  assumes "is_listing fs" "p \<in> set (discovered fs)" "q \<in> set (discovered fs)"
    and "key_of fs p = key_of fs q"
  shows "p = q"
proof -
  have wp: "snd p \<noteq> []" "\<forall>c \<in> set (snd p). os_sep fs \<notin> set c" "\<forall>c \<in> set (snd p). CHR ''/'' \<notin> set c"
    and wq: "snd q \<noteq> []" "\<forall>c \<in> set (snd q). os_sep fs \<notin> set c" "\<forall>c \<in> set (snd q). CHR ''/'' \<notin> set c"
    using assms(1,2,3) by (auto simp: is_listing_def)
  have kp: "key_of fs p = root_prefix (fst p) @ ''/'' @ join ''/'' (snd p)"
    and kq: "key_of fs q = root_prefix (fst q) @ ''/'' @ join ''/'' (snd q)"
    using wp(2) wq(2) by (simp_all add: key_of_def module_key_def replace_sep_join)
  have r: "fst p = fst q"
    using assms(4) unfolding kp kq
    by (cases "fst p"; cases "fst q") (simp_all add: root_prefix_def)
  then have "join ''/'' (snd p) = join ''/'' (snd q)"
    using assms(4) unfolding kp kq by simp
  then have "snd p = snd q"
    using wp(1,3) wq(1,3) by (intro join_inject[of _ "CHR ''/''"]) auto
  with r show ?thesis by (simp add: prod_eq_iff)
qed

lemma distinct_discovered: "is_listing fs \<Longrightarrow> distinct (discovered fs)"
  by (auto simp: is_listing_def discovered_def distinct_map inj_on_def)

lemma distinct_scan_keys: "is_listing fs \<Longrightarrow> distinct (map (key_of fs) (discovered fs))"
  using key_of_inject[of fs]
  by (simp add: distinct_map distinct_discovered inj_on_def)

lemma dict_get_scanned:
  assumes "is_listing fs" "p \<in> set (discovered fs)"
  shows "dict_get (dict_update [] (map (\<lambda>p. (key_of fs p, f p)) (discovered fs))) (key_of fs p)
           = Some (f p)"
proof -
  have d: "distinct (map fst (map (\<lambda>p. (key_of fs p, f p)) (discovered fs)))"
    using distinct_scan_keys[OF assms(1)] by (simp add: comp_def)
  have "(key_of fs p, f p) \<in> set (map (\<lambda>p. (key_of fs p, f p)) (discovered fs))"
    using assms(2) by simp
  then have "map_of (map (\<lambda>p. (key_of fs p, f p)) (discovered fs)) (key_of fs p) = Some (f p)"
    using d by (rule map_of_is_SomeI[rotated])
  then show ?thesis
    by (simp only: dict_get_update_distinct[OF d] option.case)
qed

lemma scan_keys_listing:
  assumes "is_listing fs"
  shows "map fst (modules (scan_modules fs self)) = map (key_of fs) (discovered fs)"
proof -
  have "distinct (map fst (map (\<lambda>p. (key_of fs p, p)) (discovered fs)))"
    using distinct_scan_keys[OF assms] by (simp add: comp_def)
  then have "map fst (dict_update [] (map (\<lambda>p. (key_of fs p, p)) (discovered fs)))
        = map fst (map (\<lambda>p. (key_of fs p, p)) (discovered fs))"
    using keys_dict_update_fresh[of "map (\<lambda>p. (key_of fs p, p)) (discovered fs)" "[]"] by simp
  then show ?thesis
    by (simp add: scan_modules_maps comp_def)
qed

text \<open>
  Claim C4. After a scan the location map and the metadata map have the same keys, in
  the same order. When the listing is what an operating system gives (no path twice,
  no separator inside a part of a path), two different discovered files never get the
  same key: the keys of the maps are the keys of the discovered files, one for each
  file, and none occurs twice.
\<close>

theorem scan_keys_agree_and_unique:
  "map fst (modules (scan_modules fs self)) = map fst (metadata (scan_modules fs self))
   \<and> (is_listing fs \<longrightarrow>
        (\<forall>p \<in> set (discovered fs). \<forall>q \<in> set (discovered fs). p \<noteq> q \<longrightarrow> key_of fs p \<noteq> key_of fs q)
        \<and> map fst (modules (scan_modules fs self)) = map (key_of fs) (discovered fs)
        \<and> is_dict (modules (scan_modules fs self))
        \<and> is_dict (metadata (scan_modules fs self)))"
proof -
  have "is_dict (modules (scan_modules fs self)) \<and> is_dict (metadata (scan_modules fs self))"
    if "is_listing fs"
    using scan_keys_listing[OF that, of self] distinct_scan_keys[OF that] scan_same_keys[of fs self]
    by (simp add: is_dict_def)
  then show ?thesis
    using scan_same_keys[of fs self] scan_keys_listing[of fs self] key_of_inject[of fs]
    by blast
qed

theorem scan_keys_agree_and_unique_witness:
  "is_listing example_fs
   \<and> map fst (modules (scan_modules example_fs unscanned))
       = map (key_of example_fs) (discovered example_fs)
   \<and> map fst (metadata (scan_modules example_fs unscanned))
       = [''modules/probe.py'', ''modules/bare.py'', ''modules/locked.py'', ''examples/aux/echo.py'']
   \<and> key_of example_fs (MODULE_DIR, [''bare.py'']) \<noteq> key_of example_fs (EXAMPLES_DIR, [''aux'', ''echo.py''])"
proof -
  have l: "is_listing example_fs"
    by (simp add: is_listing_def discovered_def example_fs_def)
  have m: "(MODULE_DIR, [''bare.py'']) \<in> set (discovered example_fs)"
    "(EXAMPLES_DIR, [''aux'', ''echo.py'']) \<in> set (discovered example_fs)"
    by (simp_all add: discovered_def example_fs_def)
  note t = scan_keys_agree_and_unique [of example_fs unscanned]
  have a: "map fst (modules (scan_modules example_fs unscanned))
       = map (key_of example_fs) (discovered example_fs)"
    using t l by blast
  have "map fst (metadata (scan_modules example_fs unscanned))
       = map (key_of example_fs) (discovered example_fs)"
    using t a by simp
  then have b: "map fst (metadata (scan_modules example_fs unscanned))
       = [''modules/probe.py'', ''modules/bare.py'', ''modules/locked.py'', ''examples/aux/echo.py'']"
    by (simp add: discovered_def example_fs_def key_of_def module_key_def root_prefix_def)
  have c: "key_of example_fs (MODULE_DIR, [''bare.py'']) \<noteq> key_of example_fs (EXAMPLES_DIR, [''aux'', ''echo.py''])"
    using t l m by blast
  show ?thesis
    using l a b c by (intro conjI)
qed

text \<open>
  Claim C3, as the claim states it, fails: the file \<^verbatim>\<open>locked.py\<close> cannot be read, and
  after the scan its key is in the location map and in the metadata map, with empty
  metadata. The scan does not skip the file.
\<close>

theorem scan_skips_unreadable_counterexample:
  "readlines example_fs (MODULE_DIR, [''locked.py'']) = Inl (Raised ''PermissionError'')
   \<and> dict_get (modules (scan_modules example_fs unscanned)) ''modules/locked.py''
       = Some (MODULE_DIR, [''locked.py''])
   \<and> dict_get (metadata (scan_modules example_fs unscanned)) ''modules/locked.py''
       = Some \<lparr>description = [], declared_options = []\<rparr>"
  by (simp add: scan_example) (simp add: example_fs_def example_registry_def dict_get_def)

text \<open>
  Claim C3, amended. No error in reading a file aborts the scan or drops a file: every
  discovered file, readable or not, is entered under its key in the location map and in
  the metadata map, and a file that cannot be read is entered with empty metadata.
\<close>

theorem scan_lists_every_file:
  assumes "is_listing fs" and "p \<in> set (discovered fs)"
  shows "dict_get (modules (scan_modules fs self)) (key_of fs p) = Some p
       \<and> dict_get (metadata (scan_modules fs self)) (key_of fs p) = Some (read_meta fs p)
       \<and> (\<forall>e. readlines fs p = Inl e \<longrightarrow>
             read_meta fs p = \<lparr>description = [], declared_options = []\<rparr>)
       \<and> length (modules (scan_modules fs self)) = length (discovered fs)"
proof -
  have "length (map fst (modules (scan_modules fs self))) = length (map (key_of fs) (discovered fs))"
    using scan_keys_listing[OF assms(1), of self] by simp
  then have "length (modules (scan_modules fs self)) = length (discovered fs)"
    by simp
  moreover have "read_meta fs p = \<lparr>description = [], declared_options = []\<rparr>"
    if "readlines fs p = Inl e" for e
    using that by (simp add: read_meta_def)
  ultimately show ?thesis
    using dict_get_scanned[OF assms, of "\<lambda>p. p"] dict_get_scanned[OF assms, of "read_meta fs"]
    by (simp add: scan_modules_maps)
qed

theorem scan_lists_every_file_witness:
  "is_listing example_fs
   \<and> (MODULE_DIR, [''locked.py'']) \<in> set (discovered example_fs)
   \<and> readlines example_fs (MODULE_DIR, [''locked.py'']) = Inl (Raised ''PermissionError'')
   \<and> dict_get (modules (scan_modules example_fs unscanned)) ''modules/locked.py''
       = Some (MODULE_DIR, [''locked.py''])
   \<and> dict_get (metadata (scan_modules example_fs unscanned)) ''modules/locked.py''
       = Some \<lparr>description = [], declared_options = []\<rparr>
   \<and> length (modules (scan_modules example_fs unscanned)) = 4"
proof -
  have l: "is_listing example_fs"
    by (simp add: is_listing_def discovered_def example_fs_def)
  have m: "(MODULE_DIR, [''locked.py'']) \<in> set (discovered example_fs)"
    by (simp add: discovered_def example_fs_def)
  have r: "readlines example_fs (MODULE_DIR, [''locked.py'']) = Inl (Raised ''PermissionError'')"
    by (simp add: example_fs_def)
  have k: "key_of example_fs (MODULE_DIR, [''locked.py'']) = ''modules/locked.py''"
    by (simp add: key_of_def module_key_def root_prefix_def example_fs_def)
  have n: "length (discovered example_fs) = 4"
    by (simp add: discovered_def example_fs_def)
  from scan_lists_every_file [OF l m, of unscanned] r
  have "dict_get (modules (scan_modules example_fs unscanned)) ''modules/locked.py''
          = Some (MODULE_DIR, [''locked.py''])"
    and "dict_get (metadata (scan_modules example_fs unscanned)) ''modules/locked.py''
          = Some \<lparr>description = [], declared_options = []\<rparr>"
    and "length (modules (scan_modules example_fs unscanned)) = 4"
    unfolding k n by simp_all
  then show ?thesis
    using l m r by (intro conjI)
qed

section \<open>The option scan\<close>

lemma quote_not_ident: "is_quote c \<Longrightarrow> \<not> is_ident c"
  by (auto simp: is_quote_def is_ident_def)

lemma quote_not_space: "is_quote c \<Longrightarrow> \<not> is_space c"
  by (auto simp: is_quote_def is_space_def)

lemma colon_class: "\<not> is_quote CHR '':''" "\<not> is_ident CHR '':''" "\<not> is_space CHR '':''"
  by (simp_all add: is_quote_def is_ident_def is_space_def)

lemma other_class: "\<not> is_space CHR ''=''" "\<not> is_space CHR ''{''"
  by (simp_all add: is_space_def)

lemma takeWhile_run: "list_all P xs \<Longrightarrow> \<not> P y \<Longrightarrow> takeWhile P (xs @ y # ys) = xs"
  by (induction xs) auto

lemma dropWhile_run: "list_all P xs \<Longrightarrow> \<not> P y \<Longrightarrow> dropWhile P (xs @ y # ys) = y # ys"
  by (induction xs) auto

lemma split_run:
  "dropWhile P xs = y # ys \<Longrightarrow> xs = takeWhile P xs @ y # ys \<and> list_all P (takeWhile P xs) \<and> \<not> P y"
  by (metis takeWhile_dropWhile_id hd_dropWhile list.sel(1) list.distinct(1) list_all_iff set_takeWhileD)

lemma match_name_at_SomeI:
  assumes "is_quote q1" "is_quote q2" "n \<noteq> []" "list_all is_ident n" "list_all is_space ws"
  shows "match_name_at (q1 # n @ q2 # ws @ CHR '':'' # rest) = Some (n, length n + length ws + 3)"
  using assms
  by (simp add: match_name_at_def takeWhile_run dropWhile_run quote_not_ident colon_class)

lemma match_name_at_SomeD:
  assumes "match_name_at t = Some (n, len)"
  shows "\<exists>q1 q2 ws rest. t = q1 # n @ q2 # ws @ CHR '':'' # rest
           \<and> is_quote q1 \<and> is_quote q2 \<and> n \<noteq> [] \<and> list_all is_ident n \<and> list_all is_space ws
           \<and> len = length n + length ws + 3"
proof -
  from assms obtain q1 s1 where t: "t = q1 # s1" "is_quote q1" "takeWhile is_ident s1 \<noteq> []"
    by (cases t) (auto simp: match_name_at_def Let_def split: if_splits)
  from assms t obtain q2 s2 where d1: "dropWhile is_ident s1 = q2 # s2" "is_quote q2"
    by (cases "dropWhile is_ident s1") (auto simp: match_name_at_def Let_def split: if_splits)
  from assms t d1 obtain rest where d2: "dropWhile is_space s2 = CHR '':'' # rest"
    by (cases "dropWhile is_space s2") (auto simp: match_name_at_def Let_def split: if_splits)
  from assms t d1 d2 have r: "n = takeWhile is_ident s1"
    "len = length n + length (takeWhile is_space s2) + 3"
    by (auto simp: match_name_at_def Let_def split: if_splits)
  have "s1 = n @ q2 # s2" "list_all is_ident n"
    using split_run[OF d1(1)] r(1) by simp_all
  moreover have "s2 = takeWhile is_space s2 @ CHR '':'' # rest" "list_all is_space (takeWhile is_space s2)"
    using split_run[OF d2] by simp_all
  ultimately show ?thesis
    using t r d1(2) by (metis append_Cons)
qed

lemma name_at_iff: "name_at t = Some n \<longleftrightarrow> quoted_name t n"
proof
  assume "name_at t = Some n"
  then obtain len where "match_name_at t = Some (n, len)"
    by (auto simp: name_at_def)
  from match_name_at_SomeD[OF this] show "quoted_name t n"
    unfolding quoted_name_def by auto
next
  assume "quoted_name t n"
  then obtain q1 q2 ws rest where "t = q1 # n @ q2 # ws @ CHR '':'' # rest"
    "is_quote q1" "is_quote q2" "n \<noteq> []" "list_all is_ident n" "list_all is_space ws"
    unfolding quoted_name_def by auto
  then show "name_at t = Some n"
    by (simp add: name_at_def match_name_at_SomeI)
qed

lemma map_filter_append: "List.map_filter f (xs @ ys) = List.map_filter f xs @ List.map_filter f ys"
  by (simp add: List.map_filter_def)

lemma tails_append: "tails (a @ b) = map (\<lambda>t. t @ b) (tails a) @ tails b"
  by (induction a) auto

lemma name_at_not_quote: "\<not> is_quote c \<Longrightarrow> name_at (c # cs) = None"
  by (simp add: name_at_def match_name_at_def)

lemma no_name_in_run:
  "list_all (\<lambda>c. \<not> is_quote c) a \<Longrightarrow> List.map_filter name_at (map (\<lambda>t. t @ b) (tails a)) = []"
  by (induction a) (simp_all add: List.map_filter_simps name_at_not_quote)

lemma name_at_no_ident: "\<not> is_ident c \<Longrightarrow> name_at (q # c # cs) = None"
  by (simp add: name_at_def match_name_at_def)

lemma no_name_inside_match:
  assumes "is_quote q2" "list_all is_ident n" "list_all is_space ws"
  shows "List.map_filter name_at (tails (n @ q2 # ws @ CHR '':'' # rest))
           = List.map_filter name_at (tails rest)"
proof -
  have n: "list_all (\<lambda>c. \<not> is_quote c) n"
    using assms(2) quote_not_ident by (auto simp: list_all_iff)
  have w: "list_all (\<lambda>c. \<not> is_quote c) ws"
    using assms(3) quote_not_space by (auto simp: list_all_iff)
  have q: "name_at (q2 # ws @ CHR '':'' # rest) = None"
  proof (cases ws)
    case Nil
    then show ?thesis by (simp add: name_at_no_ident colon_class)
  next
    case (Cons c cs)
    then have "is_space c" using assms(3) by simp
    then have "\<not> is_ident c" by (auto simp: is_space_def is_ident_def Let_def)
    then show ?thesis by (simp add: Cons name_at_no_ident)
  qed
  have "List.map_filter name_at (tails (ws @ CHR '':'' # rest)) = List.map_filter name_at (tails rest)"
    by (simp add: tails_append map_filter_append no_name_in_run[OF w] List.map_filter_simps
        name_at_not_quote colon_class)
  then have "List.map_filter name_at (tails (q2 # ws @ CHR '':'' # rest))
               = List.map_filter name_at (tails rest)"
    by (simp add: List.map_filter_simps q)
  then show ?thesis
    by (simp only: tails_append[of n] map_filter_append no_name_in_run[OF n] append_Nil)
qed

lemma findall_names_tails: "findall_names s = List.map_filter name_at (tails s)"
proof (induction s rule: findall_names.induct)
  case 1
  then show ?case by (simp add: List.map_filter_simps)
next
  case (2 c cs)
  show ?case
  proof (cases "match_name_at (c # cs)")
    case None
    have "name_at (c # cs) = None"
      by (simp add: name_at_def None)
    then show ?thesis
      using 2(1)[OF None] None by (simp add: List.map_filter_simps)
  next
    case (Some r)
    obtain n len where r: "r = (n, len)" by (cases r)
    from match_name_at_SomeD[OF Some[unfolded r]] obtain q1 q2 ws rest where
      d: "c # cs = q1 # n @ q2 # ws @ CHR '':'' # rest" "is_quote q2" "list_all is_ident n"
        "list_all is_space ws" "len = length n + length ws + 3"
      by blast
    have cs: "cs = n @ q2 # ws @ CHR '':'' # rest" using d(1) by simp
    have dr: "drop (len - 1) cs = rest"
      by (simp add: cs d(5))
    have "findall_names (c # cs) = n # findall_names (drop (len - 1) cs)"
      by (simp add: Some r)
    also have "\<dots> = n # List.map_filter name_at (tails rest)"
      using 2(2)[OF Some r[symmetric]] unfolding dr by simp
    also have "\<dots> = n # List.map_filter name_at (tails cs)"
      unfolding cs by (simp only: no_name_inside_match[OF d(2,3,4)])
    also have "\<dots> = List.map_filter name_at (tails (c # cs))"
    proof -
      have "name_at (c # cs) = Some n"
        by (simp add: name_at_def Some r)
      then show ?thesis
        by (simp add: List.map_filter_simps)
    qed
    finally show ?thesis .
  qed
qed

section \<open>The options block\<close>

lemma match_options_at_SomeI:
  assumes "list_all is_space ws1" "list_all is_space ws2" "CHR ''}'' \<notin> set body"
  shows "match_options_at (''OPTIONS'' @ ws1 @ ''='' @ ws2 @ ''{'' @ body @ ''}'' @ after) = Some body"
proof -
  have b: "list_all (\<lambda>x. x \<noteq> CHR ''}'') body"
    using assms(3) by (auto simp: list_all_iff)
  show ?thesis
    using assms(1,2)
    by (simp add: match_options_at_def dropWhile_run takeWhile_run[OF b] dropWhile_run[OF b]
        other_class)
qed

lemma match_options_at_SomeD:
  assumes "match_options_at t = Some body"
  shows "options_block t body"
proof -
  from assms have "prefix ''OPTIONS'' t"
    by (auto simp: match_options_at_def split: if_splits)
  then obtain r where t: "t = ''OPTIONS'' @ r"
    by (auto simp: prefix_def)
  have dr: "drop 7 t = r" by (simp add: t)
  from assms obtain s1 where d1: "dropWhile is_space r = CHR ''='' # s1"
    by (cases "dropWhile is_space r")
      (auto simp: match_options_at_def dr simp del: dropWhile_eq_Nil_conv split: if_splits)
  from assms d1 obtain s2 where d2: "dropWhile is_space s1 = CHR ''{'' # s2"
    by (cases "dropWhile is_space s1")
      (auto simp: match_options_at_def dr simp del: dropWhile_eq_Nil_conv split: if_splits)
  from assms d1 d2 have b: "body = takeWhile (\<lambda>x. x \<noteq> CHR ''}'') s2"
    and ne: "dropWhile (\<lambda>x. x \<noteq> CHR ''}'') s2 \<noteq> []"
    by (auto simp: match_options_at_def dr simp del: dropWhile_eq_Nil_conv split: if_splits)
  from ne obtain y after where d3: "dropWhile (\<lambda>x. x \<noteq> CHR ''}'') s2 = y # after"
    by (cases "dropWhile (\<lambda>x. x \<noteq> CHR ''}'') s2") auto
  have y: "y = CHR ''}''" using split_run[OF d3] by simp
  have s2: "s2 = body @ CHR ''}'' # after" and nb: "CHR ''}'' \<notin> set body"
    using split_run[OF d3] b y by (auto simp: list_all_iff)
  have s1: "s1 = takeWhile is_space s1 @ CHR ''{'' # s2" "list_all is_space (takeWhile is_space s1)"
    using split_run[OF d2] by simp_all
  have r: "r = takeWhile is_space r @ CHR ''='' # s1" "list_all is_space (takeWhile is_space r)"
    using split_run[OF d1] by simp_all
  have "t = ''OPTIONS'' @ takeWhile is_space r @ ''='' @ takeWhile is_space s1 @ ''{'' @ body @ ''}'' @ after"
    using t r(1) s1(1) s2 by simp
  then show ?thesis
    unfolding options_block_def using r(2) s1(2) nb by blast
qed

lemma match_options_at_iff: "match_options_at t = Some body \<longleftrightarrow> options_block t body"
proof
  assume "match_options_at t = Some body"
  then show "options_block t body" by (rule match_options_at_SomeD)
next
  assume "options_block t body"
  then show "match_options_at t = Some body"
    unfolding options_block_def using match_options_at_SomeI by blast
qed

lemma search_options_leftmost:
  assumes "match_options_at block = Some body"
    and "\<forall>i < length before. match_options_at (drop i (before @ block)) = None"
  shows "search_options (before @ block) = Some body"
  using assms
proof (induction before)
  case Nil
  then show ?case by (cases block) simp_all
next
  case (Cons b bs)
  have "match_options_at (b # bs @ block) = None"
    using Cons.prems(2)[rule_format, of 0] by simp
  moreover have "\<forall>i < length bs. match_options_at (drop i (bs @ block)) = None"
  proof (intro allI impI)
    fix i assume "i < length bs"
    then show "match_options_at (drop i (bs @ block)) = None"
      using Cons.prems(2)[rule_format, of "Suc i"] by simp
  qed
  ultimately show ?case
    using Cons.IH[OF Cons.prems(1)] by simp
qed

lemma search_options_None:
  "(\<forall>i. match_options_at (drop i s) = None) \<Longrightarrow> search_options s = None"
proof (induction s)
  case Nil
  then show ?case using Nil[rule_format, of 0] by simp
next
  case (Cons c cs)
  have "match_options_at (c # cs) = None"
    using Cons.prems[rule_format, of 0] by simp
  moreover have "\<forall>i. match_options_at (drop i cs) = None"
  proof
    fix i show "match_options_at (drop i cs) = None"
      using Cons.prems[rule_format, of "Suc i"] by simp
  qed
  ultimately show ?case
    using Cons.IH by simp
qed

lemma read_meta_options:
  assumes "readlines fs p = Inr ls"
    and "search_options (concat (take METADATA_READ_LINES ls)) = Some body"
  shows "declared_options (read_meta fs p) = List.map_filter name_at (tails body)"
  using assms by (simp add: read_meta_def Let_def findall_names_tails)

lemma read_meta_first_lines:
  assumes "readlines fs p = Inr ls" "readlines fs' p' = Inr ls'"
    and "take METADATA_READ_LINES ls' = take METADATA_READ_LINES ls"
  shows "read_meta fs' p' = read_meta fs p"
  using assms by (simp add: read_meta_def)

text \<open>
  Claim C9, as the claim states it, fails. In \<^verbatim>\<open>probe.py\<close> the name \<^verbatim>\<open>TARGET\<close> is
  followed by a blank and then the colon: the scan returns it, although no colon follows
  it immediately. In the other file \<^verbatim>\<open>default\<close> appears twice, and the scan returns it
  twice, not once at its first appearance.
\<close>

theorem declared_options_counterexample:
  "readlines example_fs (MODULE_DIR, [''probe.py'']) = Inr probe_lines
   \<and> declared_options (read_meta example_fs (MODULE_DIR, [''probe.py''])) = [''TARGET'', ''required'']
   \<and> spec_declared_names (concat (take METADATA_READ_LINES probe_lines)) = [''required'']
   \<and> readlines twice_fs (MODULE_DIR, [''twice.py'']) = Inr twice_lines
   \<and> declared_options (read_meta twice_fs (MODULE_DIR, [''twice.py''])) = [''default'', ''default'']
   \<and> spec_declared_names (concat (take METADATA_READ_LINES twice_lines)) = [''default'']"
  by (simp add: example_fs_def twice_fs_def read_meta_def METADATA_READ_LINES_def probe_lines_def
      twice_lines_def spec_declared_names_def first_appearances_def spec_name_at_def
      List.map_filter_simps match_options_at_def match_description_at_def match_name_at_def
      is_space_def is_ident_def is_quote_def Let_def)

text \<open>
  Claim C9, amended. The result of the extraction depends on the first 120 lines of the
  file only. When the text of these lines has an \<^verbatim>\<open>OPTIONS\<close> block, and \<open>body\<close> is what
  the braces of the leftmost one enclose (from the opening brace to the first closing
  brace after it, whatever braces the Python dictionary nests), the declared option
  names are the names found at the places of \<open>body\<close>, from left to right, one for each
  place where an identifier between two quote characters is followed, after optional
  white space, by a colon.
\<close>

theorem declared_options_spec:
  assumes "readlines fs p = Inr ls"
    and "concat (take METADATA_READ_LINES ls) = before @ block"
    and "options_block block body"
    and "\<forall>i < length before. \<forall>b. \<not> options_block (drop i (before @ block)) b"
  shows "declared_options (read_meta fs p) = List.map_filter name_at (tails body)
       \<and> (\<forall>t n. name_at t = Some n \<longleftrightarrow> quoted_name t n)
       \<and> (\<forall>fs' p' ls'. readlines fs' p' = Inr ls' \<longrightarrow>
             take METADATA_READ_LINES ls' = take METADATA_READ_LINES ls \<longrightarrow>
             read_meta fs' p' = read_meta fs p)"
proof -
  have m: "match_options_at block = Some body"
    using assms(3) by (simp add: match_options_at_iff)
  have "\<forall>i < length before. match_options_at (drop i (before @ block)) = None"
  proof (intro allI impI)
    fix i assume i: "i < length before"
    show "match_options_at (drop i (before @ block)) = None"
    proof (cases "match_options_at (drop i (before @ block))")
      case None
      then show ?thesis .
    next
      case (Some b)
      then have "options_block (drop i (before @ block)) b"
        by (rule match_options_at_SomeD)
      then show ?thesis using assms(4) i by blast
    qed
  qed
  then have "search_options (concat (take METADATA_READ_LINES ls)) = Some body"
    unfolding assms(2) using m by (intro search_options_leftmost)
  then have "declared_options (read_meta fs p) = List.map_filter name_at (tails body)"
    using assms(1) by (intro read_meta_options)
  moreover have "read_meta fs' p' = read_meta fs p"
    if "readlines fs' p' = Inr ls'" "take METADATA_READ_LINES ls' = take METADATA_READ_LINES ls"
    for fs' p' ls'
    using assms(1) that by (rule read_meta_first_lines)
  ultimately show ?thesis
    using name_at_iff by blast
qed

theorem declared_options_spec_witness:
  "readlines example_fs (MODULE_DIR, [''probe.py'']) = Inr probe_lines
   \<and> concat (take METADATA_READ_LINES probe_lines) = (''#O'' @ [CHR 0x0A]) @ concat (tl probe_lines)
   \<and> options_block (concat (tl probe_lines)) ''\"TARGET\" : {\"required\": True''
   \<and> length (''#O'' @ [CHR 0x0A]) = 3
   \<and> (\<forall>b. \<not> options_block (drop 0 ((''#O'' @ [CHR 0x0A]) @ concat (tl probe_lines))) b)
   \<and> (\<forall>b. \<not> options_block (drop 1 ((''#O'' @ [CHR 0x0A]) @ concat (tl probe_lines))) b)
   \<and> (\<forall>b. \<not> options_block (drop 2 ((''#O'' @ [CHR 0x0A]) @ concat (tl probe_lines))) b)
   \<and> declared_options (read_meta example_fs (MODULE_DIR, [''probe.py''])) = [''TARGET'', ''required'']"
proof -
  have a: "readlines example_fs (MODULE_DIR, [''probe.py'']) = Inr probe_lines"
    by (simp add: example_fs_def)
  have b: "concat (take METADATA_READ_LINES probe_lines) = (''#O'' @ [CHR 0x0A]) @ concat (tl probe_lines)"
    by (simp add: METADATA_READ_LINES_def probe_lines_def)
  have "match_options_at (concat (tl probe_lines)) = Some ''\"TARGET\" : {\"required\": True''"
    by (simp add: probe_lines_def match_options_at_def is_space_def)
  then have c: "options_block (concat (tl probe_lines)) ''\"TARGET\" : {\"required\": True''"
    by (rule match_options_at_SomeD)
  have n: "match_options_at (drop i ((''#O'' @ [CHR 0x0A]) @ concat (tl probe_lines))) = None"
    if "i < length (''#O'' @ [CHR 0x0A])" for i
  proof -
    from that have "i = 0 \<or> i = 1 \<or> i = 2" by auto
    then show ?thesis
      by (auto simp: probe_lines_def match_options_at_def)
  qed
  have d: "\<forall>i < length (''#O'' @ [CHR 0x0A]). \<forall>b.
         \<not> options_block (drop i ((''#O'' @ [CHR 0x0A]) @ concat (tl probe_lines))) b"
  proof (intro allI impI)
    fix i b assume "i < length (''#O'' @ [CHR 0x0A])"
    from n[OF this] show "\<not> options_block (drop i ((''#O'' @ [CHR 0x0A]) @ concat (tl probe_lines))) b"
      by (simp add: match_options_at_iff[symmetric])
  qed
  have "List.map_filter name_at (tails ''\"TARGET\" : {\"required\": True'') = [''TARGET'', ''required'']"
    by (simp add: List.map_filter_simps name_at_def match_name_at_def is_space_def is_ident_def
        is_quote_def Let_def)
  then have "declared_options (read_meta example_fs (MODULE_DIR, [''probe.py''])) = [''TARGET'', ''required'']"
    using declared_options_spec [OF a b c d] by simp
  moreover have "length (''#O'' @ [CHR 0x0A]) = 3"
    by simp
  moreover have "\<forall>b. \<not> options_block (drop 0 ((''#O'' @ [CHR 0x0A]) @ concat (tl probe_lines))) b"
    using d [rule_format, of 0] by simp
  moreover have "\<forall>b. \<not> options_block (drop 1 ((''#O'' @ [CHR 0x0A]) @ concat (tl probe_lines))) b"
    using d [rule_format, of 1] by simp
  moreover have "\<forall>b. \<not> options_block (drop 2 ((''#O'' @ [CHR 0x0A]) @ concat (tl probe_lines))) b"
    using d [rule_format, of 2] by simp
  ultimately show ?thesis
    using a b c by (intro conjI)
qed

section \<open>A file without options and description\<close>

text \<open>
  Claim C2, as the claim states it, fails. The file \<^verbatim>\<open>bare.py\<close> has no \<^verbatim>\<open>OPTIONS\<close>
  declaration and no description field, and its metadata is empty; executing it gives a
  module without \<^verbatim>\<open>OPTIONS\<close>, and \<^verbatim>\<open>use\<close> prints a load error and loads nothing.
\<close>

theorem use_without_options_counterexample:
  "readlines example_fs (MODULE_DIR, [''bare.py'']) = Inr bare_lines
   \<and> search_options (concat (take METADATA_READ_LINES bare_lines)) = None
   \<and> search_description (concat (take METADATA_READ_LINES bare_lines)) = None
   \<and> read_meta example_fs (MODULE_DIR, [''bare.py'']) = \<lparr>description = [], declared_options = []\<rparr>
   \<and> exec_module example_fs (MODULE_DIR, [''bare.py'']) = Inr bare_module
   \<and> cmd_use example_fs example_registry [''bare.py'']
       = (example_registry, [PrintError ''Load error:'' (AttributeError ''OPTIONS'')])"
  by (simp add: example_fs_def example_registry_def read_meta_def METADATA_READ_LINES_def
      bare_lines_def bare_module_def match_options_at_def match_description_at_def is_quote_def
      cmd_use_def import_module_def resolve_key_def dict_contains_def dict_get_def Let_def)

text \<open>
  Claim C2, amended. For a file whose first 120 lines contain no \<^verbatim>\<open>OPTIONS\<close> block and
  no description field the extracted metadata is empty. \<^verbatim>\<open>use\<close> loads the file when
  executing it gives a module that has \<^verbatim>\<open>OPTIONS\<close> all the same; when the module has
  none, \<^verbatim>\<open>use\<close> prints a load error and leaves the framework as it was. In a session
  loaded with an empty schema, \<^verbatim>\<open>set_option\<close> raises the unknown-option error for
  every name, and \<^verbatim>\<open>run\<close> calls the module's \<^verbatim>\<open>run\<close> with the empty mapping.
\<close>

theorem use_without_declaration:
  assumes "readlines fs p = Inr ls"
    and "search_options (concat (take METADATA_READ_LINES ls)) = None"
    and "search_description (concat (take METADATA_READ_LINES ls)) = None"
    and "dict_get (modules self) (resolve_key (modules self) a) = Some p"
    and "exec_module fs p = Inr m"
  shows "read_meta fs p = \<lparr>description = [], declared_options = []\<rparr>
     \<and> (OPTIONS m = None \<longrightarrow>
          cmd_use fs self (a # as) = (self, [PrintError ''Load error:'' (AttributeError ''OPTIONS'')]))
     \<and> (\<forall>opts. OPTIONS m = Some opts \<longrightarrow>
          cmd_use fs self (a # as) =
            (self\<lparr>loaded_module :=
                Some \<lparr>name = resolve_key (modules self) a, module = m,
                      options = load_defaults opts []\<rparr>\<rparr>,
             [Print (''Loaded module '' @ resolve_key (modules self) a)]))
     \<and> (OPTIONS m = Some [] \<longrightarrow>
          (\<forall>k v. set_option \<lparr>name = resolve_key (modules self) a, module = m, options = []\<rparr> k v
                   = Inl (unknown_option k))
          \<and> (\<forall>f sess. run m = Some f \<longrightarrow>
                ModuleInstance_run \<lparr>name = resolve_key (modules self) a, module = m, options = []\<rparr> sess
                  = f sess []))"
proof -
  have i: "import_module fs self (resolve_key (modules self) a) = Inr m"
    using assms(4,5) by (simp add: import_module_def)
  have "read_meta fs p = \<lparr>description = [], declared_options = []\<rparr>"
    using assms(1,2,3) by (simp add: read_meta_def)
  moreover have "cmd_use fs self (a # as) = (self, [PrintError ''Load error:'' (AttributeError ''OPTIONS'')])"
    if "OPTIONS m = None"
    using i that by (simp add: cmd_use_def Let_def)
  moreover have "set_option \<lparr>name = resolve_key (modules self) a, module = m, options = []\<rparr> k v
                   = Inl (unknown_option k)" if "OPTIONS m = Some []" for k v
    using that by (simp add: set_option_def dict_contains_def)
  moreover have "ModuleInstance_run \<lparr>name = resolve_key (modules self) a, module = m, options = []\<rparr> sess
                  = f sess []" if "run m = Some f" for f sess
    using that by (simp add: ModuleInstance_run_def)
  ultimately show ?thesis
    using cmd_use_success[OF i] by blast
qed

theorem use_without_declaration_witness:
  "readlines plain_fs (MODULE_DIR, [''bare.py'']) = Inr plain_lines
   \<and> search_options (concat (take METADATA_READ_LINES plain_lines)) = None
   \<and> search_description (concat (take METADATA_READ_LINES plain_lines)) = None
   \<and> dict_get (modules example_registry) (resolve_key (modules example_registry) ''bare.py'')
       = Some (MODULE_DIR, [''bare.py''])
   \<and> exec_module plain_fs (MODULE_DIR, [''bare.py'']) = Inr plain_module
   \<and> exec_module example_fs (MODULE_DIR, [''bare.py'']) = Inr bare_module
   \<and> OPTIONS plain_module = Some [] \<and> OPTIONS bare_module = None
   \<and> read_meta plain_fs (MODULE_DIR, [''bare.py'']) = \<lparr>description = [], declared_options = []\<rparr>
   \<and> cmd_use plain_fs example_registry [''bare.py'']
       = (example_registry\<lparr>loaded_module :=
            Some \<lparr>name = ''modules/bare.py'', module = plain_module, options = []\<rparr>\<rparr>,
          [Print ''Loaded module modules/bare.py''])
   \<and> set_option \<lparr>name = ''modules/bare.py'', module = plain_module, options = []\<rparr> ''MSG'' (PStr ''hi'')
       = Inl (unknown_option ''MSG'')
   \<and> ModuleInstance_run \<lparr>name = ''modules/bare.py'', module = plain_module, options = []\<rparr>
         (session example_registry) = Inr [[]]
   \<and> cmd_use example_fs example_registry [''bare.py'']
       = (example_registry, [PrintError ''Load error:'' (AttributeError ''OPTIONS'')])"
proof -
  have k: "resolve_key (modules example_registry) ''bare.py'' = ''modules/bare.py''"
    by (simp add: resolve_key_def example_registry_def dict_contains_def)
  have r: "readlines plain_fs (MODULE_DIR, [''bare.py'']) = Inr plain_lines"
    "readlines example_fs (MODULE_DIR, [''bare.py'']) = Inr bare_lines"
    by (simp_all add: plain_fs_def example_fs_def)
  have s: "search_options (concat (take METADATA_READ_LINES plain_lines)) = None"
    "search_description (concat (take METADATA_READ_LINES plain_lines)) = None"
    "search_options (concat (take METADATA_READ_LINES bare_lines)) = None"
    "search_description (concat (take METADATA_READ_LINES bare_lines)) = None"
    by (simp_all add: METADATA_READ_LINES_def plain_lines_def bare_lines_def match_options_at_def
        match_description_at_def is_quote_def is_space_def)
  have g: "dict_get (modules example_registry) (resolve_key (modules example_registry) ''bare.py'')
       = Some (MODULE_DIR, [''bare.py''])"
    unfolding k by (simp add: example_registry_def dict_get_def)
  have e: "exec_module plain_fs (MODULE_DIR, [''bare.py'']) = Inr plain_module"
    "exec_module example_fs (MODULE_DIR, [''bare.py'']) = Inr bare_module"
    by (simp_all add: plain_fs_def example_fs_def)
  have o: "OPTIONS plain_module = Some []" "OPTIONS bare_module = None"
    "run plain_module = Some print_names"
    by (simp_all add: plain_module_def bare_module_def)
  note t1 = use_without_declaration [OF r(1) s(1,2) g e(1), of "[]", unfolded k]
  note t2 = use_without_declaration [OF r(2) s(3,4) g e(2), of "[]", unfolded k]
  have "read_meta plain_fs (MODULE_DIR, [''bare.py'']) = \<lparr>description = [], declared_options = []\<rparr>"
    using t1 by blast
  moreover have "cmd_use plain_fs example_registry [''bare.py'']
       = (example_registry\<lparr>loaded_module :=
            Some \<lparr>name = ''modules/bare.py'', module = plain_module, options = []\<rparr>\<rparr>,
          [Print ''Loaded module modules/bare.py''])"
    using t1 [THEN conjunct2, THEN conjunct2, THEN conjunct1, rule_format, OF o(1)] by simp
  moreover have "set_option \<lparr>name = ''modules/bare.py'', module = plain_module, options = []\<rparr> ''MSG'' (PStr ''hi'')
       = Inl (unknown_option ''MSG'')"
    using t1 o(1) by blast
  moreover have "ModuleInstance_run \<lparr>name = ''modules/bare.py'', module = plain_module, options = []\<rparr>
         (session example_registry) = print_names (session example_registry) []"
    using t1 o(1,3) by blast
  moreover have "cmd_use example_fs example_registry [''bare.py'']
       = (example_registry, [PrintError ''Load error:'' (AttributeError ''OPTIONS'')])"
    using t2 o(2) by blast
  ultimately show ?thesis
    using r(1) s(1,2) g e o(1,2) by (simp add: print_names_def)
qed

end
